theory Spec2Isabelle
  imports Main
begin

section \<open>Python values and exceptions\<close>

text \<open>
  The quiz agent (agent.py, tools.py, main.py) passes JSON-shaped Python values around:
  the oracle's parsed reply, the argument mapping of an action, the reply of the
  submission endpoint and the entries of the history. \<open>pyval\<close> is the type of these
  values. A dict is an association list read with \<open>map_of\<close>; a float is kept as its
  Python \<open>repr\<close> (so \<open>0.0\<close> is \<open>PFloat ''0.0''\<close>). A \<open>string\<close> stands for a Python
  \<open>str\<close>, one list element per character.

  Python separates the exceptions that \<^verbatim>\<open>except Exception\<close> catches from those only
  a bare \<^verbatim>\<open>except:\<close> catches (SystemExit, KeyboardInterrupt, a cancelled task);
  \<open>exn\<close> keeps that distinction. \<open>Exception m\<close> and \<open>BaseException m\<close> carry the text
  of \<^verbatim>\<open>str(e)\<close>; \<open>StrRaises e'\<close> is an exception derived from Exception whose
  \<^verbatim>\<open>__str__\<close> raises \<open>e'\<close>, so that formatting it in a handler raises \<open>e'\<close> from the
  handler. Every external call is taken to return or to raise.
\<close>

datatype pyval =
    PNone
  | PBool bool
  | PInt int
  | PFloat string
  | PStr string
  | PList "pyval list"
  | PDict "(string \<times> pyval) list"

datatype exn = Exception string | StrRaises exn | BaseException string

type_synonym 'a result = "exn + 'a"

fun py_type_name :: "pyval \<Rightarrow> string" where
  "py_type_name PNone = ''NoneType''"
| "py_type_name (PBool b) = ''bool''"
| "py_type_name (PInt i) = ''int''"
| "py_type_name (PFloat f) = ''float''"
| "py_type_name (PStr s) = ''str''"
| "py_type_name (PList xs) = ''list''"
| "py_type_name (PDict kvs) = ''dict''"

definition quoted :: "string \<Rightarrow> string" where
  "quoted s = CHR 0x27 # s @ [CHR 0x27]"

definition attribute_error :: "pyval \<Rightarrow> string \<Rightarrow> exn" where
  "attribute_error v name =
     Exception (quoted (py_type_name v) @ '' object has no attribute '' @ quoted name)"

text \<open>\<^verbatim>\<open>obj.get(key, default)\<close>: only a dict has the method.\<close>

definition py_get :: "pyval \<Rightarrow> string \<Rightarrow> pyval \<Rightarrow> pyval result" where
  "py_get obj k d =
     (case obj of
        PDict kvs \<Rightarrow> Inr (case map_of kvs k of Some v \<Rightarrow> v | None \<Rightarrow> d)
      | _ \<Rightarrow> Inl (attribute_error obj ''get''))"

text \<open>
  The characters of a text. A \<open>char\<close> below 128 is that ASCII character; the chars from
  128 up stand for the non-ASCII characters of the text, and which characters they are is
  a parameter of the model:
  \<^item> \<open>lone_surrogate\<close>: whether the character is a lone surrogate, which
    \<^verbatim>\<open>json.loads\<close> produces from an escape such as \<^verbatim>\<open>\ud83d\<close> and which standard
    output cannot encode;
  \<^item> \<open>upper_non_ascii\<close>: what \<^verbatim>\<open>str.upper()\<close> makes of the character (one or more
    characters, possibly ASCII ones: the long s becomes \<open>S\<close>, the sharp s \<open>SS\<close>);
  \<^item> \<open>encode_error\<close>: the message of the UnicodeEncodeError that printing the str
    raises.
\<close>

record text_ops =
  lone_surrogate :: "char \<Rightarrow> bool"
  upper_non_ascii :: "char \<Rightarrow> string"
  encode_error :: "string \<Rightarrow> string"

text \<open>
  \<^verbatim>\<open>s.upper()\<close>: an ASCII lower-case letter becomes its capital, any other ASCII
  character and a lone surrogate stay, any other character is upper-cased as Unicode
  says. Only a str has the method.
\<close>

definition upper_char :: "'a text_ops_scheme \<Rightarrow> char \<Rightarrow> string" where
  "upper_char t c =
     (let n = (of_char c :: nat) in
      if 97 \<le> n \<and> n \<le> 122 then [char_of (n - 32)]
      else if n < 128 then [c]
      else if lone_surrogate t c then [c]
      else upper_non_ascii t c)"

definition upper :: "'a text_ops_scheme \<Rightarrow> string \<Rightarrow> string" where
  "upper t s = concat (map (upper_char t) s)"

definition py_upper :: "'a text_ops_scheme \<Rightarrow> pyval \<Rightarrow> string result" where
  "py_upper t v =
     (case v of PStr s \<Rightarrow> Inr (upper t s) | _ \<Rightarrow> Inl (attribute_error v ''upper''))"

text \<open>
  \<^verbatim>\<open>print(f"... {v}")\<close> on a standard output that encodes the program's own lines
  (UTF-8): the line is written unless \<open>v\<close> is a str with a lone surrogate, for which the
  print raises UnicodeEncodeError. The \<open>repr\<close> of any other value escapes what it holds.
  \<open>printing p r\<close> is a print with outcome \<open>p\<close> followed by \<open>r\<close>.
\<close>

definition encodable :: "'a text_ops_scheme \<Rightarrow> string \<Rightarrow> bool" where
  "encodable t s = list_all (\<lambda>c. (of_char c :: nat) < 128 \<or> \<not> lone_surrogate t c) s"

definition py_print :: "'a text_ops_scheme \<Rightarrow> pyval \<Rightarrow> exn option" where
  "py_print t v =
     (case v of
        PStr s \<Rightarrow> if encodable t s then None else Some (Exception (encode_error t s))
      | _ \<Rightarrow> None)"

definition printing :: "exn option \<Rightarrow> 'a result \<Rightarrow> 'a result" where
  "printing p r = (case p of Some e \<Rightarrow> Inl e | None \<Rightarrow> r)"

text \<open>Truth value of a Python value (\<^verbatim>\<open>if new_url:\<close>) and \<^verbatim>\<open>v == True\<close>.\<close>

fun py_truthy :: "pyval \<Rightarrow> bool" where
  "py_truthy PNone = False"
| "py_truthy (PBool b) = b"
| "py_truthy (PInt i) = (if i = 0 then False else True)"
| "py_truthy (PFloat f) = (if f = ''0.0'' then False else if f = ''-0.0'' then False else True)"
| "py_truthy (PStr s) = (if s = [] then False else True)"
| "py_truthy (PList xs) = (if xs = [] then False else True)"
| "py_truthy (PDict kvs) = (if kvs = [] then False else True)"

fun py_eq_True :: "pyval \<Rightarrow> bool" where
  "py_eq_True (PBool b) = b"
| "py_eq_True (PInt i) = (i = 1)"
| "py_eq_True (PFloat f) = (f = ''1.0'')"
| "py_eq_True v = False"

text \<open>
  \<^verbatim>\<open>str(v)\<close>, as an f-string formats a value. The \<open>repr\<close> of a str (its quoting and
  escaping) is the interpreter's; it is the parameter \<open>rs\<close>.
\<close>

fun show_nat :: "nat \<Rightarrow> string" where
  "show_nat n =
     (if n < 10 then [char_of (48 + n)] else show_nat (n div 10) @ [char_of (48 + n mod 10)])"

definition show_int :: "int \<Rightarrow> string" where
  "show_int i = (if i < 0 then ''-'' @ show_nat (nat (- i)) else show_nat (nat i))"

fun join_comma :: "string list \<Rightarrow> string" where
  "join_comma [] = []"
| "join_comma [x] = x"
| "join_comma (x # y # ys) = x @ '', '' @ join_comma (y # ys)"

fun py_repr :: "(string \<Rightarrow> string) \<Rightarrow> pyval \<Rightarrow> string" where
  "py_repr rs PNone = ''None''"
| "py_repr rs (PBool b) = (if b then ''True'' else ''False'')"
| "py_repr rs (PInt i) = show_int i"
| "py_repr rs (PFloat f) = f"
| "py_repr rs (PStr s) = rs s"
| "py_repr rs (PList xs) = ''['' @ join_comma (map (py_repr rs) xs) @ '']''"
| "py_repr rs (PDict kvs) =
     ''{'' @ join_comma (map (\<lambda>(k, v). rs k @ '': '' @ py_repr rs v) kvs) @ ''}''"

definition py_str :: "(string \<Rightarrow> string) \<Rightarrow> pyval \<Rightarrow> string" where
  "py_str rs v = (case v of PStr s \<Rightarrow> s | _ \<Rightarrow> py_repr rs v)"

section \<open>The tool adapters (tools.py)\<close>

text \<open>
  Each adapter wraps one external operation in \<^verbatim>\<open>try: ... except Exception as e:\<close>.
  The operation (the browser, the HTTP client, the PDF reader, \<^verbatim>\<open>exec\<close>) is a
  parameter: it returns \<open>Inr\<close> its value or \<open>Inl\<close> the exception it raised.
  \<open>except_Exception\<close> is the handler: an \<open>Exception\<close> becomes the returned error text,
  built from \<^verbatim>\<open>str(e)\<close>; an exception whose \<^verbatim>\<open>__str__\<close> raises makes the handler
  raise, and anything that is not an Exception propagates. The adapters' own constant
  progress lines are taken to print.
\<close>

definition except_Exception :: "(string \<Rightarrow> 'a) \<Rightarrow> 'a result \<Rightarrow> 'a result" where
  "except_Exception handler r =
     (case r of
        Inr v \<Rightarrow> Inr v
      | Inl (Exception e) \<Rightarrow> Inr (handler e)
      | Inl (StrRaises e) \<Rightarrow> Inl e
      | Inl (BaseException e) \<Rightarrow> Inl (BaseException e))"

text \<open>\<^verbatim>\<open>execute_python_code(code, text_input)\<close>: the captured standard output.\<close>

definition execute_python_code ::
    "(pyval \<Rightarrow> pyval \<Rightarrow> string result) \<Rightarrow> pyval \<Rightarrow> pyval \<Rightarrow> string result" where
  "execute_python_code exec_code code text_input =
     except_Exception (\<lambda>e. ''Error executing code: '' @ e) (exec_code code text_input)"

text \<open>
  \<^verbatim>\<open>scrape_page(page, url)\<close>: \<open>visit\<close> is all that the \<^verbatim>\<open>try\<close> does before the
  slice: the progress line with the URL, goto, the wait and \<^verbatim>\<open>document.body.innerText\<close>.
\<close>

definition scrape_page :: "(pyval \<Rightarrow> string result) \<Rightarrow> pyval \<Rightarrow> string result" where
  "scrape_page visit url =
     except_Exception (\<lambda>e. ''Error scraping page: '' @ e)
       (case visit url of Inl e \<Rightarrow> Inl e | Inr page_text \<Rightarrow> Inr (take 30000 page_text))"

text \<open>
  \<^verbatim>\<open>download_file(url, filename)\<close>: \<open>http_get\<close> is the progress line with the URL and
  \<^verbatim>\<open>requests.get\<close>; it returns the response's content-type header (\<open>''''\<close> when
  absent). \<open>write_file\<close> is \<^verbatim>\<open>open(filename, 'wb')\<close> with the write.
  A filename that is not a str makes \<^verbatim>\<open>"." not in filename\<close>, \<^verbatim>\<open>filename += ext\<close>
  or \<^verbatim>\<open>open\<close> raise a TypeError.
\<close>

definition contains :: "string \<Rightarrow> string \<Rightarrow> bool" where
  "contains needle hay = (\<exists>n \<in> set [0..<Suc (length hay)]. take (length needle) (drop n hay) = needle)"

definition infer_extension :: "string \<Rightarrow> string \<Rightarrow> string" where
  "infer_extension filename content_type =
     (if CHR ''.'' \<in> set filename then filename
      else if contains ''pdf'' content_type then filename @ ''.pdf''
      else if contains ''csv'' content_type then filename @ ''.csv''
      else filename @ ''.txt'')"

definition filename_type_error :: "pyval \<Rightarrow> exn" where
  "filename_type_error v =
     (case v of
        PList xs \<Rightarrow> Exception ''expected str, bytes or os.PathLike object, not list''
      | PDict kvs \<Rightarrow>
          (if ''.'' \<in> fst ` set kvs
           then Exception ''expected str, bytes or os.PathLike object, not dict''
           else Exception
             (''unsupported operand type(s) for +=: '' @ quoted ''dict'' @ '' and '' @ quoted ''str''))
      | _ \<Rightarrow> Exception (''argument of type '' @ quoted (py_type_name v) @ '' is not iterable''))"

definition download_file ::
    "(pyval \<Rightarrow> string result) \<Rightarrow> (string \<Rightarrow> exn option) \<Rightarrow> pyval \<Rightarrow> pyval \<Rightarrow> string result" where
  "download_file http_get write_file url filename =
     except_Exception (\<lambda>e. ''Error downloading: '' @ e)
       (case http_get url of
          Inl e \<Rightarrow> Inl e
        | Inr content_type \<Rightarrow>
            (case filename of
               PStr name \<Rightarrow>
                 (case write_file (infer_extension name content_type) of
                    Some e \<Rightarrow> Inl e
                  | None \<Rightarrow>
                      Inr (''Success. File saved to '' @ infer_extension name content_type))
             | _ \<Rightarrow> Inl (filename_type_error filename)))"

text \<open>
  \<^verbatim>\<open>read_pdf(filename)\<close>: \<open>pdf_open\<close> returns the pages, each the outcome of its
  \<^verbatim>\<open>extract_text()\<close> (\<open>None\<close> or the text). \<open>read_pages\<close> is the loop over the pages.
\<close>

fun read_pages :: "(string option) result list \<Rightarrow> string \<Rightarrow> string result" where
  "read_pages [] acc = Inr acc"
| "read_pages (Inl e # ps) acc = Inl e"
| "read_pages (Inr None # ps) acc = read_pages ps acc"
| "read_pages (Inr (Some extracted) # ps) acc =
     read_pages ps (if extracted = [] then acc else acc @ extracted @ [CHR 0x0A])"

definition read_pdf ::
    "(pyval \<Rightarrow> (string option) result list result) \<Rightarrow> pyval \<Rightarrow> string result" where
  "read_pdf pdf_open filename =
     except_Exception (\<lambda>e. ''Error reading PDF: '' @ e)
       (case pdf_open filename of
          Inl e \<Rightarrow> Inl e
        | Inr pages \<Rightarrow>
            (case read_pages pages [] of Inl e \<Rightarrow> Inl e | Inr t \<Rightarrow> Inr (take 10000 t)))"

text \<open>
  \<^verbatim>\<open>submit_quiz(submit_url, payload)\<close>: the progress line with \<open>submit_url\<close> is
  printed before the \<^verbatim>\<open>try\<close>, so its UnicodeEncodeError leaves the adapter.
  \<open>http_post\<close> returns the response; its \<open>json_body\<close> is the outcome of
  \<^verbatim>\<open>res.json()\<close>, which a bare \<^verbatim>\<open>except:\<close> guards.
\<close>

record http_response =
  status_code :: int
  body_text :: string
  json_body :: "pyval result"

definition submit_quiz ::
    "'a text_ops_scheme \<Rightarrow> (pyval \<Rightarrow> pyval \<Rightarrow> http_response result) \<Rightarrow> pyval \<Rightarrow> pyval \<Rightarrow>
       pyval result" where
  "submit_quiz t http_post submit_url payload =
     printing (py_print t submit_url)
       (except_Exception (\<lambda>e. PDict [(''error'', PStr e)])
          (case http_post submit_url payload of
             Inl e \<Rightarrow> Inl e
           | Inr res \<Rightarrow>
               (case json_body res of
                  Inr v \<Rightarrow> Inr v
                | Inl e \<Rightarrow>
                    Inr (PDict [(''status'', PInt (status_code res)),
                                (''text'', PStr (body_text res))]))))"

section \<open>The agent loop (agent.py)\<close>

text \<open>
  The world outside the loop: the browser, the reasoning oracle, the network, the file
  system and the interpreter. The first argument of an operation is the step at which the
  loop calls it, so the world may answer differently at each step.
  \<^item> \<open>browser_start\<close>: the exception of \<^verbatim>\<open>async_playwright()\<close>, the launch or
    \<^verbatim>\<open>new_page()\<close>, if any;
  \<^item> \<open>oracle_text\<close>: \<^verbatim>\<open>model.generate_content(system_msg).text\<close>, for the prompt's
    current URL and its last three history entries;
  \<^item> \<open>json_loads\<close>: \<^verbatim>\<open>json.loads\<close>, \<open>Inl\<close> the message of its JSONDecodeError;
  \<^item> \<open>repr_str\<close>: the \<open>repr\<close> of a str;
  \<^item> the operations the adapters wrap;
  \<^item> the characters of its texts (\<open>text_ops\<close>).
  The URL, email and secret of the request are validated strs; the lines that print
  them, and the loop's constant lines, are taken to print.
\<close>

type_synonym entry = "(string \<times> pyval) list"

record world = text_ops +
  browser_start :: "exn option"
  oracle_text :: "nat \<Rightarrow> pyval \<Rightarrow> entry list \<Rightarrow> string result"
  json_loads :: "string \<Rightarrow> string + pyval"
  repr_str :: "string \<Rightarrow> string"
  browser_visit :: "nat \<Rightarrow> pyval \<Rightarrow> string result"
  requests_get :: "nat \<Rightarrow> pyval \<Rightarrow> string result"
  file_write :: "nat \<Rightarrow> string \<Rightarrow> exn option"
  pdfplumber_open :: "nat \<Rightarrow> pyval \<Rightarrow> (string option) result list result"
  python_exec :: "nat \<Rightarrow> pyval \<Rightarrow> pyval \<Rightarrow> string result"
  requests_post :: "nat \<Rightarrow> pyval \<Rightarrow> pyval \<Rightarrow> http_response result"

text \<open>
  The session: \<open>current_url\<close> and \<open>history\<close> are the loop's two variables;
  \<open>thinking_log\<close> is the step numbers of the \<^verbatim>\<open>Thinking (Step n)\<close> lines printed so
  far, one per iteration entered.
\<close>

record session =
  current_url :: pyval
  history :: "entry list"
  thinking_log :: "nat list"

definition and_then :: "'a result \<Rightarrow> ('a \<Rightarrow> 'b result) \<Rightarrow> 'b result" where
  "and_then m f = (case m of Inl e \<Rightarrow> Inl e | Inr v \<Rightarrow> f v)"

text \<open>\<^verbatim>\<open>history[-3:]\<close>, and \<^verbatim>\<open>history[-1]['result'] if history else ""\<close> with its KeyError.\<close>

definition last3 :: "entry list \<Rightarrow> entry list" where
  "last3 h = drop (length h - 3) h"

definition last_text :: "entry list \<Rightarrow> pyval result" where
  "last_text h =
     (if h = [] then Inr (PStr [])
      else (case map_of (last h) ''result'' of
              Some v \<Rightarrow> Inr v
            | None \<Rightarrow> Inl (Exception (quoted ''result''))))"

definition step_record :: "nat \<Rightarrow> string \<Rightarrow> string \<Rightarrow> entry" where
  "step_record step tool res =
     [(''step'', PInt (int step)), (''tool'', PStr tool), (''result'', PStr res)]"

definition error_record :: "string \<Rightarrow> entry" where
  "error_record e = [(''error'', PStr e)]"

definition submit_payload :: "string \<Rightarrow> string \<Rightarrow> pyval \<Rightarrow> pyval \<Rightarrow> pyval" where
  "submit_payload email secret cur answer =
     PDict [(''email'', PStr email), (''secret'', PStr secret), (''url'', cur), (''answer'', answer)]"

text \<open>
  What the tool branch of one iteration leaves: a result text for the history, the next
  quiz's URL (the \<^verbatim>\<open>continue\<close>), or the end of the quiz chain (the \<^verbatim>\<open>break\<close>).
\<close>

datatype action_outcome = Observed string | Advance pyval | Finished

text \<open>The SUBMIT branch up to the endpoint's reply: the payload and the POST.\<close>

definition submit_response ::
    "world \<Rightarrow> string \<Rightarrow> string \<Rightarrow> nat \<Rightarrow> session \<Rightarrow> pyval \<Rightarrow> pyval result" where
  "submit_response w email secret step s args =
     and_then (py_get args ''answer'' PNone) (\<lambda>answer.
     and_then (py_get args ''url'' PNone) (\<lambda>submit_url.
       submit_quiz w (requests_post w step) submit_url
         (submit_payload email secret (current_url s) answer)))"

text \<open>
  The tool branches: \<^verbatim>\<open>if tool == "SCRAPE": ... elif ...\<close>, with \<^verbatim>\<open>result = ""\<close>
  when no branch matches. The PYTHON branch prints the first 200 characters of the
  output (stripped of white space, which holds no surrogate); the SUBMIT branch prints
  the endpoint's reply and, before it moves on, the next URL.
\<close>

definition dispatch ::
    "world \<Rightarrow> string \<Rightarrow> string \<Rightarrow> nat \<Rightarrow> session \<Rightarrow> string \<Rightarrow> pyval \<Rightarrow> action_outcome result" where
  "dispatch w email secret step s tool args =
     (if tool = ''SCRAPE'' then
        and_then (py_get args ''url'' (current_url s)) (\<lambda>target.
        and_then (scrape_page (browser_visit w step) target) (\<lambda>r. Inr (Observed r)))
      else if tool = ''DOWNLOAD'' then
        and_then (py_get args ''url'' PNone) (\<lambda>url.
        and_then (py_get args ''filename'' (PStr ''data_file'')) (\<lambda>filename.
        and_then (download_file (requests_get w step) (file_write w step) url filename)
          (\<lambda>r. Inr (Observed r))))
      else if tool = ''READ_PDF'' then
        and_then (py_get args ''filename'' PNone) (\<lambda>filename.
        and_then (read_pdf (pdfplumber_open w step) filename) (\<lambda>r. Inr (Observed r)))
      else if tool = ''PYTHON'' then
        and_then (last_text (history s)) (\<lambda>text_input.
        and_then (py_get args ''code'' PNone) (\<lambda>code.
        and_then (execute_python_code (python_exec w step) code text_input) (\<lambda>r.
          printing (py_print w (PStr (take 200 r))) (Inr (Observed r)))))
      else if tool = ''SUBMIT'' then
        and_then (submit_response w email secret step s args) (\<lambda>submit_res.
        printing (py_print w submit_res)
       (and_then (py_get submit_res ''correct'' PNone) (\<lambda>correct.
          if py_eq_True correct then
            and_then (py_get submit_res ''url'' PNone) (\<lambda>new_url.
              if py_truthy new_url
              then printing (py_print w new_url) (Inr (Advance new_url))
              else Inr Finished)
          else
            and_then (py_get submit_res ''reason'' PNone) (\<lambda>reason.
              Inr (Observed (''Submission failed. Reason: '' @ py_str (repr_str w) reason))))))
      else Inr (Observed []))"

text \<open>
  The \<^verbatim>\<open>try\<close> block of one iteration, up to the history update: \<open>think\<close> asks the
  oracle and parses its reply, \<open>act\<close> prints the tool of the parsed action, reads the
  tool name and the arguments and runs the tool.
\<close>

definition think :: "world \<Rightarrow> nat \<Rightarrow> session \<Rightarrow> pyval result" where
  "think w step s =
     and_then (oracle_text w step (current_url s) (last3 (history s))) (\<lambda>reply.
       case json_loads w reply of Inl msg \<Rightarrow> Inl (Exception msg) | Inr action \<Rightarrow> Inr action)"

definition act ::
    "world \<Rightarrow> string \<Rightarrow> string \<Rightarrow> nat \<Rightarrow> session \<Rightarrow> pyval \<Rightarrow> (string \<times> action_outcome) result" where
  "act w email secret step s action =
     and_then (py_get action ''tool'' PNone) (\<lambda>shown.
     printing (py_print w shown)
    (and_then (py_get action ''tool'' (PStr [])) (\<lambda>name.
     and_then (py_upper w name) (\<lambda>tool.
     and_then (py_get action ''args'' (PDict [])) (\<lambda>args.
     and_then (dispatch w email secret step s tool args) (\<lambda>out. Inr (tool, out)))))))"

definition try_block ::
    "world \<Rightarrow> string \<Rightarrow> string \<Rightarrow> nat \<Rightarrow> session \<Rightarrow> (string \<times> action_outcome) result" where
  "try_block w email secret step s = and_then (think w step s) (act w email secret step s)"

text \<open>
  One iteration of \<^verbatim>\<open>for step in range(10)\<close>: how control leaves the body, and the
  session it leaves. \<open>Propagate\<close> is an exception that \<^verbatim>\<open>except Exception\<close> does not
  catch, or one that the handler raises when it formats the exception it caught. The
  message of a caught exception is taken to be printable: the interpreter's and the
  libraries' messages escape the characters they quote.
\<close>

datatype flow = Next session | Continue session | Break session | Propagate exn session

fun flow_session :: "flow \<Rightarrow> session" where
  "flow_session (Next s) = s"
| "flow_session (Continue s) = s"
| "flow_session (Break s) = s"
| "flow_session (Propagate e s) = s"

definition loop_body :: "world \<Rightarrow> string \<Rightarrow> string \<Rightarrow> nat \<Rightarrow> session \<Rightarrow> flow" where
  "loop_body w email secret step s0 =
     (let s = s0\<lparr>thinking_log := thinking_log s0 @ [step]\<rparr> in
      case try_block w email secret step s of
        Inr (tool, Observed r) \<Rightarrow>
          Next (s\<lparr>history := history s @ [step_record step tool (take 800 r)]\<rparr>)
      | Inr (tool, Advance new_url) \<Rightarrow> Continue (s\<lparr>current_url := new_url, history := []\<rparr>)
      | Inr (tool, Finished) \<Rightarrow> Break s
      | Inl (Exception e) \<Rightarrow> Next (s\<lparr>history := history s @ [error_record e]\<rparr>)
      | Inl (StrRaises e) \<Rightarrow> Propagate e s
      | Inl (BaseException e) \<Rightarrow> Propagate (BaseException e) s)"

text \<open>
  How a session ends: the step budget ran out, the quiz chain was solved, or an
  exception left \<^verbatim>\<open>run_agent_loop\<close> (the browser could not be started, or an
  iteration raised what \<^verbatim>\<open>except Exception\<close> does not catch). The closing of the
  browser after the loop is not part of the model.
\<close>

datatype ending = Exhausted | Done | Aborted exn

fun for_steps ::
    "world \<Rightarrow> string \<Rightarrow> string \<Rightarrow> nat list \<Rightarrow> session \<Rightarrow> ending \<times> session" where
  "for_steps w email secret [] s = (Exhausted, s)"
| "for_steps w email secret (step # rest) s =
     (case loop_body w email secret step s of
        Next s' \<Rightarrow> for_steps w email secret rest s'
      | Continue s' \<Rightarrow> for_steps w email secret rest s'
      | Break s' \<Rightarrow> (Done, s')
      | Propagate e s' \<Rightarrow> (Aborted e, s'))"

definition initial_session :: "string \<Rightarrow> session" where
  "initial_session start_url = \<lparr>current_url = PStr start_url, history = [], thinking_log = []\<rparr>"

definition run_agent_loop :: "world \<Rightarrow> string \<Rightarrow> string \<Rightarrow> string \<Rightarrow> ending \<times> session" where
  "run_agent_loop w start_url email secret =
     (case browser_start w of
        Some e \<Rightarrow> (Aborted e, initial_session start_url)
      | None \<Rightarrow> for_steps w email secret [0..<10] (initial_session start_url))"

section \<open>The session launcher (main.py)\<close>

text \<open>
  \<^verbatim>\<open>start_quiz(req, tasks)\<close>: \<open>my_secret\<close> is \<^verbatim>\<open>MY_SECRET\<close>, read from the environment
  at start-up; \<open>tasks\<close> is the request's \<^verbatim>\<open>BackgroundTasks\<close>, each task a call of
  \<^verbatim>\<open>run_agent_loop\<close> to make. The result is the HTTPException raised or the response
  body, with the tasks as the call left them.
\<close>

record quiz_request =
  req_email :: string
  req_secret :: string
  req_url :: string





section \<open>Example worlds\<close>

text \<open>
  Concrete worlds on which the theorems below are run. \<open>demo_loads\<close> parses the few
  replies the example oracles give and rejects every other text. \<open>replying_world\<close> has
  an oracle that gives the stated reply at each step, a browser, network and interpreter
  that always succeed, and a submission endpoint that accepts every answer and names
  \<open>Q2\<close> as the next quiz; in \<open>quiet_world\<close> the oracle always replies with the empty
  object. In the texts of these worlds the char 128 is a lone surrogate and the char 129
  the long s.
\<close>

definition demo_loads :: "string \<Rightarrow> string + pyval" where
  \<open>demo_loads reply =
     (if reply = ''{}'' then Inr (PDict [])
      else if reply = ''[]'' then Inr (PList [])
      else if reply = ''{"tool": "submit", "args": {"url": "E", "answer": "42"}}''
        then Inr (PDict [(''tool'', PStr ''submit''),
                         (''args'', PDict [(''url'', PStr ''E''), (''answer'', PStr ''42'')])])
      else if reply = ''{"tool": "python", "args": {"code": "print(6 * 7)"}}''
        then Inr (PDict [(''tool'', PStr ''python''),
                         (''args'', PDict [(''code'', PStr ''print(6 * 7)'')])])
      else if reply = ''{"tool": "browse", "args": 7}''
        then Inr (PDict [(''tool'', PStr ''browse''), (''args'', PInt 7)])
      else if reply = ''{"tool": 5}'' then Inr (PDict [(''tool'', PInt 5)])
      else if reply = ''{"tool": "scrape", "args": "Q1"}''
        then Inr (PDict [(''tool'', PStr ''scrape''), (''args'', PStr ''Q1'')])
      else if reply = ''{"tool": "'' @ [CHR 0x5C] @ ''ud83d"}''
        then Inr (PDict [(''tool'', PStr [CHR 0x80])])
      else Inl ''Expecting value: line 1 column 1 (char 0)'')\<close>

definition submit_reply :: string where
  \<open>submit_reply = ''{"tool": "submit", "args": {"url": "E", "answer": "42"}}''\<close>

definition python_reply :: string where
  \<open>python_reply = ''{"tool": "python", "args": {"code": "print(6 * 7)"}}''\<close>


definition accepting_post :: "nat \<Rightarrow> pyval \<Rightarrow> pyval \<Rightarrow> http_response result" where
  "accepting_post step submit_url payload =
     Inr \<lparr>status_code = 200, body_text = [],
          json_body = Inr (PDict [(''correct'', PBool True), (''url'', PStr ''Q2'')])\<rparr>"

definition replying_world :: "(nat \<Rightarrow> string) \<Rightarrow> world" where
  "replying_world reply =
     \<lparr>lone_surrogate = (\<lambda>c. of_char c = (128::nat)),
      upper_non_ascii = (\<lambda>c. if of_char c = (129::nat) then ''S'' else [c]),
      encode_error = (\<lambda>s. ''surrogates not allowed''),
      browser_start = None,
      oracle_text = (\<lambda>step cur h. Inr (reply step)),
      json_loads = demo_loads,
      repr_str = quoted,
      browser_visit = (\<lambda>step target. Inr ''What is 6 * 7?''),
      requests_get = (\<lambda>step target. Inr ''text/csv''),
      file_write = (\<lambda>step name. None),
      pdfplumber_open = (\<lambda>step name. Inr [Inr (Some ''page one''), Inr None]),
      python_exec = (\<lambda>step code text_input. Inr ''42''),
      requests_post = accepting_post\<rparr>"

definition quiet_world :: world where
  "quiet_world = replying_world (\<lambda>step. ''{}'')"

text \<open>The oracle submits the right answer at step 7 and does nothing at the other steps.\<close>

definition chain_world :: world where
  "chain_world = replying_world (\<lambda>step. if step = 7 then submit_reply else ''{}'')"

text \<open>The oracle submits at every step; the endpoint rejects with the given reason.\<close>

definition rejecting_post :: "string \<Rightarrow> nat \<Rightarrow> pyval \<Rightarrow> pyval \<Rightarrow> http_response result" where
  "rejecting_post reason step submit_url payload =
     Inr \<lparr>status_code = 200, body_text = [],
          json_body = Inr (PDict [(''correct'', PBool False), (''reason'', PStr reason)])\<rparr>"

definition rejecting_world :: "string \<Rightarrow> world" where
  "rejecting_world reason =
     (replying_world (\<lambda>step. submit_reply))\<lparr>requests_post := rejecting_post reason\<rparr>"

text \<open>Oracles whose reply is not JSON, names an unknown tool, or asks for PYTHON.\<close>

definition garbled_world :: world where
  "garbled_world = replying_world (\<lambda>step. ''The answer is 42.'')"


definition python_world :: world where
  "python_world = replying_world (\<lambda>step. python_reply)"





text \<open>
  A snippet that leaves the interpreter, a snippet that raises an exception whose
  \<^verbatim>\<open>__str__\<close> raises, and an endpoint whose body is a JSON array.
\<close>

definition broken_str_exec :: "pyval \<Rightarrow> pyval \<Rightarrow> string result" where
  "broken_str_exec code text_input = Inl (StrRaises (Exception ''no message''))"

definition exiting_exec :: "pyval \<Rightarrow> pyval \<Rightarrow> string result" where
  "exiting_exec code text_input =
     (if code = PStr ''raise SystemExit'' then Inl (BaseException []) else Inr [])"

definition array_post :: "pyval \<Rightarrow> pyval \<Rightarrow> http_response result" where
  "array_post submit_url payload =
     Inr \<lparr>status_code = 200, body_text = ''[]'', json_body = Inr (PList [])\<rparr>"

definition exiting_python_world :: world where
  "exiting_python_world = python_world\<lparr>python_exec := (\<lambda>step. exiting_exec)\<rparr>"

text \<open>Operations that fail in the ordinary way, and ones that return long texts.\<close>

definition failing_exec :: "pyval \<Rightarrow> pyval \<Rightarrow> string result" where
  "failing_exec code text_input = Inl (Exception ''division by zero'')"

definition unreachable_visit :: "pyval \<Rightarrow> string result" where
  "unreachable_visit target = Inl (Exception ''net::ERR_NAME_NOT_RESOLVED'')"

definition refused_get :: "pyval \<Rightarrow> string result" where
  "refused_get target = Inl (Exception ''Connection refused'')"

definition missing_pdf_open :: "pyval \<Rightarrow> (string option) result list result" where
  "missing_pdf_open name = Inl (Exception ''No such file or directory'')"

definition plain_text_post :: "pyval \<Rightarrow> pyval \<Rightarrow> http_response result" where
  "plain_text_post submit_url payload =
     Inr \<lparr>status_code = 500, body_text = ''Internal Server Error'',
          json_body = Inl (Exception ''Expecting value: line 1 column 1 (char 0)'')\<rparr>"

definition long_page_visit :: "pyval \<Rightarrow> string result" where
  "long_page_visit target = Inr (replicate 40000 (CHR ''a''))"

definition long_pdf_open :: "pyval \<Rightarrow> (string option) result list result" where
  "long_pdf_open name =
     Inr [Inr (Some (replicate 9000 (CHR ''a''))), Inr None, Inr (Some (replicate 9000 (CHR ''b'')))]"

text \<open>A session whose last step failed softly.\<close>

definition failed_session :: session where
  "failed_session =
     \<lparr>current_url = PStr ''Q1'',
      history = [error_record ''Expecting value: line 1 column 1 (char 0)''],
      thinking_log = [0]\<rparr>"


definition alice :: quiz_request where
  "alice = \<lparr>req_email = ''alice@example.org'', req_secret = ''elephant'', req_url = ''Q1''\<rparr>"

section \<open>Printing and tool names\<close>

lemma upper_Cons: "upper t (c # s) = upper_char t c @ upper t s"
  by (simp add: upper_def)




lemma upper_ascii_encodable:
  assumes "list_all (\<lambda>c. (of_char c :: nat) < 128) (upper t s)"
  shows "encodable t s"
  using assms
proof (induction s)
  case Nil
  show ?case by (simp add: encodable_def)
next
  case (Cons c s)
  from Cons.prems have head: "list_all (\<lambda>c. (of_char c :: nat) < 128) (upper_char t c)"
    and tail: "list_all (\<lambda>c. (of_char c :: nat) < 128) (upper t s)"
    by (simp_all add: upper_Cons)
  have "(of_char c :: nat) < 128 \<or> \<not> lone_surrogate t c"
  proof (cases "(of_char c :: nat) < 128")
    case True
    then show ?thesis by simp
  next
    case False
    show ?thesis
    proof (cases "lone_surrogate t c")
      case True
      with False have "upper_char t c = [c]" by (simp add: upper_char_def Let_def)
      with head False show ?thesis by simp
    next
      case False
      then show ?thesis by simp
    qed
  qed
  with Cons.IH [OF tail] show ?case by (simp add: encodable_def)
qed

lemma known_tool_prints:
  assumes "upper t name = ''SCRAPE'' \<or> upper t name = ''DOWNLOAD'' \<or> upper t name = ''READ_PDF'' \<or>
      upper t name = ''PYTHON'' \<or> upper t name = ''SUBMIT''"
  shows "py_print t (PStr name) = None"
proof -
  have "list_all (\<lambda>c. (of_char c :: nat) < 128) (upper t name)"
    using assms by (elim disjE) simp_all
  then have "encodable t name" by (rule upper_ascii_encodable)
  then show ?thesis by (simp add: py_print_def)
qed

lemma py_print_cases:
  "py_print t v = None \<or> (\<exists>m. py_print t v = Some (Exception m))"
  by (cases v) (simp_all add: py_print_def)

lemma act_printed:
  assumes "py_get action ''tool'' (PStr []) = Inr (PStr name)"
    and "py_print w (PStr name) = None"
    and "py_get action ''args'' (PDict []) = Inr args"
  shows "act w email secret step s action =
    and_then (dispatch w email secret step s (upper w name) args) (\<lambda>out. Inr (upper w name, out))"
proof (cases action)
  case (PDict kvs)
  show ?thesis
  proof (cases "map_of kvs ''tool''")
    case None
    with PDict assms show ?thesis
      by (simp add: act_def py_get_def py_upper_def and_then_def printing_def py_print_def)
  next
    case (Some t)
    with PDict assms show ?thesis
      by (simp add: act_def py_get_def py_upper_def and_then_def printing_def)
  qed
qed (use assms(1) in \<open>simp_all add: py_get_def\<close>)


section \<open>The step budget\<close>

lemma loop_body_thinking_log:
  "thinking_log (flow_session (loop_body w email secret step s)) = thinking_log s @ [step]"
  by (simp add: loop_body_def Let_def split: sum.split prod.split action_outcome.split exn.split)

lemma for_steps_thinking_log:
  "\<exists>k\<le>length steps.
     thinking_log (snd (for_steps w email secret steps s)) = thinking_log s @ take k steps \<and>
     (fst (for_steps w email secret steps s) = Exhausted \<longrightarrow> k = length steps)"
proof (induction steps arbitrary: s)
  case Nil
  show ?case by simp
next
  case (Cons step rest)
  have log: "thinking_log (flow_session (loop_body w email secret step s)) = thinking_log s @ [step]"
    by (rule loop_body_thinking_log)
  show ?case
  proof (cases "loop_body w email secret step s")
    case (Next s')
    from Cons.IH [of s'] obtain k where k: "k \<le> length rest"
      "thinking_log (snd (for_steps w email secret rest s')) = thinking_log s' @ take k rest"
      "fst (for_steps w email secret rest s') = Exhausted \<longrightarrow> k = length rest"
      by blast
    from log Next have "thinking_log s' = thinking_log s @ [step]" by simp
    with k Next show ?thesis by (intro exI [of _ "Suc k"]) simp
  next
    case (Continue s')
    from Cons.IH [of s'] obtain k where k: "k \<le> length rest"
      "thinking_log (snd (for_steps w email secret rest s')) = thinking_log s' @ take k rest"
      "fst (for_steps w email secret rest s') = Exhausted \<longrightarrow> k = length rest"
      by blast
    from log Continue have "thinking_log s' = thinking_log s @ [step]" by simp
    with k Continue show ?thesis by (intro exI [of _ "Suc k"]) simp
  next
    case (Break s')
    with log show ?thesis by (intro exI [of _ "Suc 0"]) simp
  next
    case (Propagate e s')
    with log show ?thesis by (intro exI [of _ "Suc 0"]) simp
  qed
qed

text \<open>
  C1. \<open>run_agent_loop\<close> is a total function, so every session ends. The iterations it
  enters are steps \<open>0, ..., k - 1\<close> for some \<open>k \<le> 10\<close>: never more than ten. A session
  that ends neither by the \<^verbatim>\<open>break\<close> of a finished quiz chain nor by an exception
  (ending \<open>Exhausted\<close>) has run exactly the ten steps \<open>0, ..., 9\<close>; one whose browser
  could not be started has run none.
\<close>

theorem run_agent_loop_step_budget:
  "(\<exists>k\<le>10. thinking_log (snd (run_agent_loop w start_url email secret)) = [0..<k]) \<and>
   (fst (run_agent_loop w start_url email secret) = Exhausted \<longrightarrow>
      thinking_log (snd (run_agent_loop w start_url email secret)) = [0..<10]) \<and>
   (browser_start w \<noteq> None \<longrightarrow>
      thinking_log (snd (run_agent_loop w start_url email secret)) = [])"
proof (cases "browser_start w")
  case (Some e)
  then have "thinking_log (snd (run_agent_loop w start_url email secret)) = [0..<0]"
    and "fst (run_agent_loop w start_url email secret) \<noteq> Exhausted"
    by (simp_all add: run_agent_loop_def initial_session_def)
  then show ?thesis by (intro conjI exI [of _ 0]) simp_all
next
  case None
  obtain k where k: "k \<le> length [0..<10::nat]"
    "thinking_log (snd (for_steps w email secret [0..<10] (initial_session start_url))) =
       thinking_log (initial_session start_url) @ take k [0..<10]"
    "fst (for_steps w email secret [0..<10] (initial_session start_url)) = Exhausted \<longrightarrow>
       k = length [0..<10::nat]"
    using for_steps_thinking_log [of "[0..<10]" w email secret "initial_session start_url"]
    by blast
  from k(1) have k10: "k \<le> 10" by simp
  then have tk: "take k [0..<10] = [0..<k]" by (simp add: take_upt)
  have run: "run_agent_loop w start_url email secret =
      for_steps w email secret [0..<10] (initial_session start_url)"
    using None by (simp add: run_agent_loop_def)
  have log: "thinking_log (snd (run_agent_loop w start_url email secret)) = [0..<k]"
    using k(2) tk by (simp add: run initial_session_def)
  have ex: "fst (run_agent_loop w start_url email secret) = Exhausted \<longrightarrow> k = 10"
    using k(3) by (simp add: run)
  from k10 log ex None show ?thesis by auto
qed

text \<open>In the quiet world no step ends the session: it runs steps 0 to 9 and stops.\<close>

theorem run_agent_loop_step_budget_witness:
  "fst (run_agent_loop quiet_world ''Q1'' ''alice@example.org'' ''elephant'') = Exhausted \<and>
   thinking_log (snd (run_agent_loop quiet_world ''Q1'' ''alice@example.org'' ''elephant'')) =
     [0..<10]"
proof -
  have "fst (run_agent_loop quiet_world ''Q1'' ''alice@example.org'' ''elephant'') = Exhausted"
    by code_simp
  with run_agent_loop_step_budget [of quiet_world "''Q1''" "''alice@example.org''" "''elephant''"]
  show ?thesis by blast
qed

section \<open>The launcher's credential check\<close>



section \<open>Submissions\<close>

text \<open>The \<^verbatim>\<open>Thinking\<close> line is the only use of the log: the \<^verbatim>\<open>try\<close> block does not read it.\<close>

lemma submit_response_thinking_log:
  "submit_response w email secret step (s\<lparr>thinking_log := l\<rparr>) args =
   submit_response w email secret step s args"
  by (simp add: submit_response_def)

lemma dispatch_thinking_log:
  "dispatch w email secret step (s\<lparr>thinking_log := l\<rparr>) tool args =
   dispatch w email secret step s tool args"
  by (simp add: dispatch_def submit_response_thinking_log cong: if_cong)

lemma act_thinking_log:
  "act w email secret step (s\<lparr>thinking_log := l\<rparr>) = act w email secret step s"
  by (rule ext) (simp add: act_def dispatch_thinking_log)

lemma try_block_thinking_log:
  "try_block w email secret step (s\<lparr>thinking_log := l\<rparr>) = try_block w email secret step s"
  by (simp add: try_block_def think_def act_thinking_log)

lemma loop_body_Observed:
  assumes "try_block w email secret step s = Inr (tool, Observed r)"
  shows "loop_body w email secret step s =
    Next (s\<lparr>thinking_log := thinking_log s @ [step],
            history := history s @ [step_record step tool (take 800 r)]\<rparr>)"
  using assms by (simp add: loop_body_def Let_def try_block_thinking_log)

lemma loop_body_Advance:
  assumes "try_block w email secret step s = Inr (tool, Advance new_url)"
  shows "loop_body w email secret step s =
    Continue (s\<lparr>thinking_log := thinking_log s @ [step], current_url := new_url, history := []\<rparr>)"
  using assms by (simp add: loop_body_def Let_def try_block_thinking_log)

lemma loop_body_Exception:
  assumes "try_block w email secret step s = Inl (Exception e)"
  shows "loop_body w email secret step s =
    Next (s\<lparr>thinking_log := thinking_log s @ [step],
            history := history s @ [error_record e]\<rparr>)"
  using assms by (simp add: loop_body_def Let_def try_block_thinking_log)

lemma dict_prints:
  assumes "py_get v k d = Inr x"
  shows "py_print t v = None"
  using assms by (cases v) (simp_all add: py_get_def py_print_def)

lemma dispatch_submit_advance:
  assumes "submit_response w email secret step s args = Inr submit_res"
    and "py_get submit_res ''correct'' PNone = Inr (PBool True)"
    and "py_get submit_res ''url'' PNone = Inr new_url" and "py_truthy new_url"
    and "py_print w new_url = None"
  shows "dispatch w email secret step s ''SUBMIT'' args = Inr (Advance new_url)"
  using assms dict_prints [OF assms(2), of w]
  by (simp add: dispatch_def and_then_def printing_def)


lemma dispatch_submit_rejected:
  assumes "submit_response w email secret step s args = Inr submit_res"
    and "py_get submit_res ''correct'' PNone = Inr (PBool False)"
    and "py_get submit_res ''reason'' PNone = Inr reason"
  shows "dispatch w email secret step s ''SUBMIT'' args =
    Inr (Observed (''Submission failed. Reason: '' @ py_str (repr_str w) reason))"
  using assms dict_prints [OF assms(2), of w]
  by (simp add: dispatch_def and_then_def printing_def)

lemma act_submit:
  assumes "py_get action ''tool'' (PStr []) = Inr (PStr name)" and "upper w name = ''SUBMIT''"
    and "py_get action ''args'' (PDict []) = Inr args"
  shows "act w email secret step s action =
    and_then (dispatch w email secret step s ''SUBMIT'' args) (\<lambda>out. Inr (''SUBMIT'', out))"
proof -
  have "py_print w (PStr name) = None"
    using assms(2) by (intro known_tool_prints) simp
  from act_printed [OF assms(1) this assms(3)] assms(2) show ?thesis by simp
qed

lemma submit_advance_loop_body:
  assumes "think w step s = Inr action"
    and "py_get action ''tool'' (PStr []) = Inr (PStr name)" and "upper w name = ''SUBMIT''"
    and "py_get action ''args'' (PDict []) = Inr args"
    and "submit_response w email secret step s args = Inr submit_res"
    and "py_get submit_res ''correct'' PNone = Inr (PBool True)"
    and "py_get submit_res ''url'' PNone = Inr new_url" and "py_truthy new_url"
    and "py_print w new_url = None"
  shows "loop_body w email secret step s =
      Continue (s\<lparr>thinking_log := thinking_log s @ [step], current_url := new_url, history := []\<rparr>)"
proof -
  have "try_block w email secret step s = Inr (''SUBMIT'', Advance new_url)"
    using assms(1) act_submit [OF assms(2-4)] dispatch_submit_advance [OF assms(5-9)]
    by (simp add: try_block_def and_then_def)
  then show ?thesis by (simp add: loop_body_Advance)
qed


lemma submit_reply_think:
  assumes "oracle_text w step (current_url s) (last3 (history s)) = Inr submit_reply"
    and "json_loads w = demo_loads"
  shows "think w step s =
     Inr (PDict [(''tool'', PStr ''submit''),
                 (''args'', PDict [(''url'', PStr ''E''), (''answer'', PStr ''42'')])])"
  using assms by (simp add: think_def and_then_def demo_loads_def submit_reply_def)

lemma chain_world_think:
  "think chain_world 7 s =
     Inr (PDict [(''tool'', PStr ''submit''),
                 (''args'', PDict [(''url'', PStr ''E''), (''answer'', PStr ''42'')])])"
  by (rule submit_reply_think) (simp_all add: chain_world_def replying_world_def)

lemma upper_submit: "upper t ''submit'' = ''SUBMIT''"
  by code_simp

lemma ascii_E_prints: "py_print (replying_world r) (PStr ''E'') = None"
  by (simp add: py_print_def encodable_def)

lemma chain_world_submit_response:
  "submit_response chain_world email secret step s
     (PDict [(''url'', PStr ''E''), (''answer'', PStr ''42'')]) =
   Inr (PDict [(''correct'', PBool True), (''url'', PStr ''Q2'')])"
  by (simp add: submit_response_def chain_world_def replying_world_def and_then_def py_get_def
      submit_quiz_def accepting_post_def except_Exception_def printing_def py_print_def
      encodable_def)

lemma chain_world_prints_Q2: "py_print chain_world (PStr ''Q2'') = None"
  by (simp add: py_print_def encodable_def)







text \<open>
  C2, as the code has it. A SUBMIT at step \<open>i\<close> that is answered with \<open>correct\<close> true and
  a next URL that the progress line can print does not reset the step counter: the loop
  goes on with step \<open>i + 1\<close> on the new quiz, and at most the \<open>9 - i\<close> steps that remain
  of the session's one budget of ten are run on it.
\<close>

theorem submit_advance_keeps_step_counter:
  assumes "think w i s = Inr action"
    and "py_get action ''tool'' (PStr []) = Inr (PStr name)" and "upper w name = ''SUBMIT''"
    and "py_get action ''args'' (PDict []) = Inr args"
    and "submit_response w email secret i s args = Inr submit_res"
    and "py_get submit_res ''correct'' PNone = Inr (PBool True)"
    and "py_get submit_res ''url'' PNone = Inr new_url" and "py_truthy new_url"
    and "py_print w new_url = None"
    and "i < 10"
  shows "for_steps w email secret [i..<10] s =
      for_steps w email secret [Suc i..<10]
        (s\<lparr>thinking_log := thinking_log s @ [i], current_url := new_url, history := []\<rparr>)
    \<and> (\<exists>k\<le>9 - i. thinking_log (snd (for_steps w email secret [i..<10] s)) =
          thinking_log s @ [i..<Suc i + k])"
proof -
  let ?s' = "s\<lparr>thinking_log := thinking_log s @ [i], current_url := new_url, history := []\<rparr>"
  have body: "loop_body w email secret i s = Continue ?s'"
    by (rule submit_advance_loop_body [OF assms(1-9)])
  have upt: "[i..<10] = i # [Suc i..<10]"
    using assms(10) by (simp add: upt_conv_Cons)
  have run: "for_steps w email secret [i..<10] s = for_steps w email secret [Suc i..<10] ?s'"
    by (simp add: upt body)
  obtain k where k: "k \<le> length [Suc i..<10]"
    "thinking_log (snd (for_steps w email secret [Suc i..<10] ?s')) =
       thinking_log ?s' @ take k [Suc i..<10]"
    using for_steps_thinking_log [of "[Suc i..<10]" w email secret ?s'] by blast
  from k(1) have k9: "k \<le> 9 - i" by simp
  with assms(10) have "take k [Suc i..<10] = [Suc i..<Suc i + k]"
    by (simp add: take_upt)
  with k(2) have "thinking_log (snd (for_steps w email secret [i..<10] s)) =
      thinking_log s @ i # [Suc i..<Suc i + k]"
    by (simp add: run)
  also have "i # [Suc i..<Suc i + k] = [i..<Suc i + k]"
    by (simp add: upt_conv_Cons)
  finally show ?thesis using run k9 by blast
qed

theorem submit_advance_keeps_step_counter_witness:
  "for_steps chain_world ''alice@example.org'' ''elephant'' [7..<10] failed_session =
     for_steps chain_world ''alice@example.org'' ''elephant'' [8..<10]
       \<lparr>current_url = PStr ''Q2'', history = [], thinking_log = [0, 7]\<rparr>"
proof -
  have "for_steps chain_world ''alice@example.org'' ''elephant'' [7..<10] failed_session =
      for_steps chain_world ''alice@example.org'' ''elephant'' [Suc 7..<10]
        (failed_session\<lparr>thinking_log := thinking_log failed_session @ [7],
           current_url := PStr ''Q2'', history := []\<rparr>)"
    using submit_advance_keeps_step_counter
      [where w = chain_world and i = 7 and s = failed_session and name = "''submit''"
         and email = "''alice@example.org''" and secret = "''elephant''"
         and new_url = "PStr ''Q2''",
       OF chain_world_think _ upper_submit _ chain_world_submit_response _ _ _
         chain_world_prints_Q2]
    by (simp add: py_get_def)
  then show ?thesis by (simp add: failed_session_def)
qed

text \<open>
  The claim of a fresh budget fails in \<open>chain_world\<close>: the SUBMIT of step 7 is accepted
  and names \<open>Q2\<close>, and the session ends after steps 8 and 9, two steps on the new quiz
  and ten \<^verbatim>\<open>Thinking\<close> lines in all.
\<close>

theorem submit_advance_fresh_budget_counterexample:
  "run_agent_loop chain_world ''Q1'' ''alice@example.org'' ''elephant'' =
     (Exhausted,
      \<lparr>current_url = PStr ''Q2'',
       history = [step_record 8 [] [], step_record 9 [] []],
       thinking_log = [0, 1, 2, 3, 4, 5, 6, 7, 8, 9]\<rparr>)"
  by code_simp

lemma submit_rejected_loop_body:
  assumes "think w step s = Inr action"
    and "py_get action ''tool'' (PStr []) = Inr (PStr name)" and "upper w name = ''SUBMIT''"
    and "py_get action ''args'' (PDict []) = Inr args"
    and "submit_response w email secret step s args = Inr submit_res"
    and "py_get submit_res ''correct'' PNone = Inr (PBool False)"
    and "py_get submit_res ''reason'' PNone = Inr reason"
  shows "loop_body w email secret step s =
      Next (s\<lparr>thinking_log := thinking_log s @ [step],
              history := history s @
                [step_record step ''SUBMIT''
                   (take 800 (''Submission failed. Reason: '' @ py_str (repr_str w) reason))]\<rparr>)"
proof -
  have "try_block w email secret step s =
      Inr (''SUBMIT'', Observed (''Submission failed. Reason: '' @ py_str (repr_str w) reason))"
    using assms(1) act_submit [OF assms(2-4)] dispatch_submit_rejected [OF assms(5-7)]
    by (simp add: try_block_def and_then_def)
  then show ?thesis by (rule loop_body_Observed)
qed

text \<open>
  C7, as the code has it. When the action of a step is SUBMIT and the endpoint's reply
  has \<open>correct\<close> false, the history gains exactly one entry, a record of the step whose
  result text is the first 800 characters of \<open>Submission failed. Reason: <reason>\<close>:
  the whole text, with the reason in it, when the reason has at most 773 characters. The
  loop goes on with the next step.
\<close>

theorem submit_rejected_records_reason:
  assumes "think w step s = Inr action"
    and "py_get action ''tool'' (PStr []) = Inr (PStr name)" and "upper w name = ''SUBMIT''"
    and "py_get action ''args'' (PDict []) = Inr args"
    and "submit_response w email secret step s args = Inr submit_res"
    and "py_get submit_res ''correct'' PNone = Inr (PBool False)"
    and "py_get submit_res ''reason'' PNone = Inr reason"
  shows "loop_body w email secret step s =
      Next (s\<lparr>thinking_log := thinking_log s @ [step],
              history := history s @
                [step_record step ''SUBMIT''
                   (take 800 (''Submission failed. Reason: '' @ py_str (repr_str w) reason))]\<rparr>)
    \<and> (length (py_str (repr_str w) reason) \<le> 773 \<longrightarrow>
         take 800 (''Submission failed. Reason: '' @ py_str (repr_str w) reason) =
           ''Submission failed. Reason: '' @ py_str (repr_str w) reason)
    \<and> for_steps w email secret (step # rest) s =
        for_steps w email secret rest
          (s\<lparr>thinking_log := thinking_log s @ [step],
              history := history s @
                [step_record step ''SUBMIT''
                   (take 800 (''Submission failed. Reason: '' @ py_str (repr_str w) reason))]\<rparr>)"
  using submit_rejected_loop_body [OF assms] by simp

lemma rejecting_world_think:
  "think (rejecting_world reason) step s =
     Inr (PDict [(''tool'', PStr ''submit''),
                 (''args'', PDict [(''url'', PStr ''E''), (''answer'', PStr ''42'')])])"
  by (rule submit_reply_think) (simp_all add: rejecting_world_def replying_world_def)

lemma rejecting_world_submit_response:
  "submit_response (rejecting_world reason) email secret step s
     (PDict [(''url'', PStr ''E''), (''answer'', PStr ''42'')]) =
   Inr (PDict [(''correct'', PBool False), (''reason'', PStr reason)])"
  by (simp add: submit_response_def rejecting_world_def replying_world_def and_then_def
      py_get_def submit_quiz_def rejecting_post_def except_Exception_def printing_def
      py_print_def encodable_def)

theorem submit_rejected_records_reason_witness:
  "loop_body (rejecting_world ''wrong sum'') ''alice@example.org'' ''elephant'' 3
     (initial_session ''Q1'') =
   Next \<lparr>current_url = PStr ''Q1'',
         history = [step_record 3 ''SUBMIT'' ''Submission failed. Reason: wrong sum''],
         thinking_log = [3]\<rparr>"
proof -
  have "loop_body (rejecting_world ''wrong sum'') ''alice@example.org'' ''elephant'' 3
      (initial_session ''Q1'') =
    Next ((initial_session ''Q1'')\<lparr>thinking_log := thinking_log (initial_session ''Q1'') @ [3],
      history := history (initial_session ''Q1'') @
        [step_record 3 ''SUBMIT''
           (take 800 (''Submission failed. Reason: '' @
              py_str (repr_str (rejecting_world ''wrong sum'')) (PStr ''wrong sum'')))]\<rparr>)"
    using submit_rejected_records_reason
      [where w = "rejecting_world ''wrong sum''" and step = 3 and s = "initial_session ''Q1''"
         and name = "''submit''" and email = "''alice@example.org''" and secret = "''elephant''"
         and reason = "PStr ''wrong sum''" and rest = "[]",
       OF rejecting_world_think _ upper_submit _ rejecting_world_submit_response]
    by (simp add: py_get_def)
  then show ?thesis by (simp add: initial_session_def py_str_def)
qed

text \<open>
  With a reason of 1000 characters the recorded result text is not the full
  \<open>Submission failed. Reason: <reason>\<close>: it stops after 773 characters of the reason.
\<close>

theorem submit_rejected_full_reason_counterexample:
  "map_of (last (history (flow_session
      (loop_body (rejecting_world (replicate 1000 (CHR ''x''))) ''alice@example.org''
         ''elephant'' 3 (initial_session ''Q1''))))) ''result'' =
     Some (PStr (''Submission failed. Reason: '' @ replicate 773 (CHR ''x''))) \<and>
   ''Submission failed. Reason: '' @ replicate 773 (CHR ''x'') \<noteq>
     ''Submission failed. Reason: '' @ replicate 1000 (CHR ''x'')"
proof -
  have "loop_body (rejecting_world (replicate 1000 (CHR ''x''))) ''alice@example.org''
      ''elephant'' 3 (initial_session ''Q1'') =
    Next ((initial_session ''Q1'')\<lparr>thinking_log := thinking_log (initial_session ''Q1'') @ [3],
      history := history (initial_session ''Q1'') @
        [step_record 3 ''SUBMIT''
           (take 800 (''Submission failed. Reason: '' @
              py_str (repr_str (rejecting_world (replicate 1000 (CHR ''x''))))
                (PStr (replicate 1000 (CHR ''x'')))))]\<rparr>)"
    using submit_rejected_loop_body
      [where w = "rejecting_world (replicate 1000 (CHR ''x''))" and step = 3
         and s = "initial_session ''Q1''" and name = "''submit''"
         and email = "''alice@example.org''" and secret = "''elephant''"
         and reason = "PStr (replicate 1000 (CHR ''x''))",
       OF rejecting_world_think _ upper_submit _ rejecting_world_submit_response]
    by (simp add: py_get_def)
  then show ?thesis
    by (simp add: py_str_def step_record_def)
qed

section \<open>Malformed replies\<close>

lemma think_reply:
  assumes "oracle_text w step (current_url s) (last3 (history s)) = Inr reply"
  shows "think w step s =
    (case json_loads w reply of Inl msg \<Rightarrow> Inl (Exception msg) | Inr action \<Rightarrow> Inr action)"
  using assms by (simp add: think_def and_then_def)

lemma act_not_dict:
  assumes "\<forall>kvs. action \<noteq> PDict kvs"
  shows "act w email secret step s action = Inl (attribute_error action ''get'')"
  using assms by (cases action) (simp_all add: act_def py_get_def and_then_def)

lemma act_tool_not_str:
  assumes "map_of kvs ''tool'' = Some t" and "\<forall>n. t \<noteq> PStr n"
  shows "act w email secret step s (PDict kvs) = Inl (attribute_error t ''upper'')"
  using assms
  by (cases t) (simp_all add: act_def py_get_def py_upper_def and_then_def printing_def py_print_def)

lemma py_get_not_dict:
  assumes "\<forall>d. args \<noteq> PDict d"
  shows "py_get args k dflt = Inl (attribute_error args ''get'')"
  using assms by (cases args) (simp_all add: py_get_def)

lemma dispatch_args_not_dict:
  assumes "tool = ''SCRAPE'' \<or> tool = ''DOWNLOAD'' \<or> tool = ''READ_PDF'' \<or> tool = ''PYTHON'' \<or>
      tool = ''SUBMIT''"
    and "\<forall>d. args \<noteq> PDict d"
  shows "\<exists>e. dispatch w email secret step s tool args = Inl (Exception e)"
proof -
  have get: "\<And>k dflt. py_get args k dflt = Inl (attribute_error args ''get'')"
    using assms(2) by (rule py_get_not_dict)
  have python: "\<exists>e. and_then (last_text (history s)) (\<lambda>text_input.
        and_then (py_get args ''code'' PNone) (\<lambda>code.
        and_then (execute_python_code (python_exec w step) code text_input) (\<lambda>r.
          printing (py_print w (PStr (take 200 r))) (Inr (Observed r))))) = Inl (Exception e)"
    by (cases "map_of (last (history s)) ''result''")
      (simp_all add: and_then_def get attribute_error_def last_text_def)
  from assms(1) show ?thesis
  proof (elim disjE)
    assume "tool = ''SCRAPE''"
    then show ?thesis by (simp add: dispatch_def and_then_def get attribute_error_def)
  next
    assume "tool = ''DOWNLOAD''"
    then show ?thesis by (simp add: dispatch_def and_then_def get attribute_error_def)
  next
    assume "tool = ''READ_PDF''"
    then show ?thesis by (simp add: dispatch_def and_then_def get attribute_error_def)
  next
    assume "tool = ''PYTHON''"
    with python show ?thesis by (simp add: dispatch_def)
  next
    assume "tool = ''SUBMIT''"
    then show ?thesis
      by (simp add: dispatch_def submit_response_def and_then_def get attribute_error_def)
  qed
qed

lemma act_args_not_dict:
  assumes "map_of kvs ''tool'' = Some (PStr n)"
    and "upper w n = ''SCRAPE'' \<or> upper w n = ''DOWNLOAD'' \<or> upper w n = ''READ_PDF'' \<or>
      upper w n = ''PYTHON'' \<or> upper w n = ''SUBMIT''"
    and "map_of kvs ''args'' = Some a" and "\<forall>d. a \<noteq> PDict d"
  shows "\<exists>e. act w email secret step s (PDict kvs) = Inl (Exception e)"
proof -
  from dispatch_args_not_dict [OF assms(2,4)]
  obtain e where e: "dispatch w email secret step s (upper w n) a = Inl (Exception e)" ..
  have "py_print w (PStr n) = None"
    using assms(2) by (rule known_tool_prints)
  moreover have "py_get (PDict kvs) ''tool'' (PStr []) = Inr (PStr n)"
    and "py_get (PDict kvs) ''args'' (PDict []) = Inr a"
    using assms(1,3) by (simp_all add: py_get_def)
  ultimately have "act w email secret step s (PDict kvs) =
      and_then (dispatch w email secret step s (upper w n) a) (\<lambda>out. Inr (upper w n, out))"
    by (intro act_printed)
  with e show ?thesis by (simp add: and_then_def)
qed

text \<open>
  C5, as the code has it. When the oracle's reply is not JSON, or is JSON but not an
  object, or is an object whose \<open>tool\<close> is not a string, or names one of the five tools
  with an \<open>args\<close> that is not an object, the step appends an error-tagged entry to the
  history and the loop goes on with the next step.
\<close>

theorem malformed_reply_is_soft_error:
  assumes "oracle_text w step (current_url s) (last3 (history s)) = Inr reply"
    and "(\<exists>msg. json_loads w reply = Inl msg)
       \<or> (\<exists>action. json_loads w reply = Inr action \<and> (\<forall>kvs. action \<noteq> PDict kvs))
       \<or> (\<exists>kvs t. json_loads w reply = Inr (PDict kvs) \<and> map_of kvs ''tool'' = Some t \<and>
            (\<forall>n. t \<noteq> PStr n))
       \<or> (\<exists>kvs n a. json_loads w reply = Inr (PDict kvs) \<and> map_of kvs ''tool'' = Some (PStr n) \<and>
            (upper w n = ''SCRAPE'' \<or> upper w n = ''DOWNLOAD'' \<or> upper w n = ''READ_PDF'' \<or>
             upper w n = ''PYTHON'' \<or> upper w n = ''SUBMIT'') \<and>
            map_of kvs ''args'' = Some a \<and> (\<forall>d. a \<noteq> PDict d))"
  shows "\<exists>e. loop_body w email secret step s =
        Next (s\<lparr>thinking_log := thinking_log s @ [step],
                history := history s @ [error_record e]\<rparr>)
      \<and> for_steps w email secret (step # rest) s =
        for_steps w email secret rest
          (s\<lparr>thinking_log := thinking_log s @ [step],
              history := history s @ [error_record e]\<rparr>)"
proof -
  have "\<exists>e. try_block w email secret step s = Inl (Exception e)"
    using assms(2)
  proof (elim disjE)
    assume "\<exists>msg. json_loads w reply = Inl msg"
    then obtain msg where "json_loads w reply = Inl msg" ..
    then show ?thesis
      by (simp add: try_block_def think_reply [OF assms(1)] and_then_def)
  next
    assume "\<exists>action. json_loads w reply = Inr action \<and> (\<forall>kvs. action \<noteq> PDict kvs)"
    then obtain action where
      "json_loads w reply = Inr action \<and> (\<forall>kvs. action \<noteq> PDict kvs)" ..
    then show ?thesis
      by (simp add: try_block_def think_reply [OF assms(1)] and_then_def act_not_dict
          attribute_error_def)
  next
    assume "\<exists>kvs t. json_loads w reply = Inr (PDict kvs) \<and> map_of kvs ''tool'' = Some t \<and>
      (\<forall>n. t \<noteq> PStr n)"
    then obtain kvs where "\<exists>t. json_loads w reply = Inr (PDict kvs) \<and>
      map_of kvs ''tool'' = Some t \<and> (\<forall>n. t \<noteq> PStr n)" ..
    then obtain t where "json_loads w reply = Inr (PDict kvs) \<and>
      map_of kvs ''tool'' = Some t \<and> (\<forall>n. t \<noteq> PStr n)" ..
    then show ?thesis
      by (simp add: try_block_def think_reply [OF assms(1)] and_then_def act_tool_not_str
          attribute_error_def)
  next
    assume "\<exists>kvs n a. json_loads w reply = Inr (PDict kvs) \<and>
      map_of kvs ''tool'' = Some (PStr n) \<and>
      (upper w n = ''SCRAPE'' \<or> upper w n = ''DOWNLOAD'' \<or> upper w n = ''READ_PDF'' \<or>
       upper w n = ''PYTHON'' \<or> upper w n = ''SUBMIT'') \<and>
      map_of kvs ''args'' = Some a \<and> (\<forall>d. a \<noteq> PDict d)"
    then obtain kvs where "\<exists>n a. json_loads w reply = Inr (PDict kvs) \<and>
      map_of kvs ''tool'' = Some (PStr n) \<and>
      (upper w n = ''SCRAPE'' \<or> upper w n = ''DOWNLOAD'' \<or> upper w n = ''READ_PDF'' \<or>
       upper w n = ''PYTHON'' \<or> upper w n = ''SUBMIT'') \<and>
      map_of kvs ''args'' = Some a \<and> (\<forall>d. a \<noteq> PDict d)" ..
    then obtain n where "\<exists>a. json_loads w reply = Inr (PDict kvs) \<and>
      map_of kvs ''tool'' = Some (PStr n) \<and>
      (upper w n = ''SCRAPE'' \<or> upper w n = ''DOWNLOAD'' \<or> upper w n = ''READ_PDF'' \<or>
       upper w n = ''PYTHON'' \<or> upper w n = ''SUBMIT'') \<and>
      map_of kvs ''args'' = Some a \<and> (\<forall>d. a \<noteq> PDict d)" ..
    then obtain a where all: "json_loads w reply = Inr (PDict kvs) \<and>
      map_of kvs ''tool'' = Some (PStr n) \<and>
      (upper w n = ''SCRAPE'' \<or> upper w n = ''DOWNLOAD'' \<or> upper w n = ''READ_PDF'' \<or>
       upper w n = ''PYTHON'' \<or> upper w n = ''SUBMIT'') \<and>
      map_of kvs ''args'' = Some a \<and> (\<forall>d. a \<noteq> PDict d)" ..
    from all have loads: "json_loads w reply = Inr (PDict kvs)" by (rule conjunct1)
    from all have r1: "map_of kvs ''tool'' = Some (PStr n)" by simp
    from all have r2: "upper w n = ''SCRAPE'' \<or> upper w n = ''DOWNLOAD'' \<or> upper w n = ''READ_PDF'' \<or>
        upper w n = ''PYTHON'' \<or> upper w n = ''SUBMIT''" by (elim conjE)
    from all have r3: "map_of kvs ''args'' = Some a" by simp
    from all have r4: "\<forall>d. a \<noteq> PDict d" by simp
    from act_args_not_dict [OF r1 r2 r3 r4]
    obtain e where "act w email secret step s (PDict kvs) = Inl (Exception e)" ..
    with loads show ?thesis
      by (simp add: try_block_def think_reply [OF assms(1)] and_then_def)
  qed
  then obtain e where "try_block w email secret step s = Inl (Exception e)" ..
  then have "loop_body w email secret step s =
      Next (s\<lparr>thinking_log := thinking_log s @ [step],
              history := history s @ [error_record e]\<rparr>)"
    by (rule loop_body_Exception)
  then show ?thesis by (intro exI [of _ e]) simp
qed


lemma garbled_world_oracle:
  "oracle_text garbled_world step cur h = Inr ''The answer is 42.''"
  by (simp add: garbled_world_def replying_world_def)

lemma garbled_world_loads:
  "json_loads garbled_world ''The answer is 42.'' =
     Inl ''Expecting value: line 1 column 1 (char 0)''"
  by (simp add: garbled_world_def replying_world_def demo_loads_def)

theorem malformed_reply_is_soft_error_witness:
  "\<exists>e. loop_body garbled_world ''alice@example.org'' ''elephant'' 0 (initial_session ''Q1'') =
     Next \<lparr>current_url = PStr ''Q1'', history = [error_record e], thinking_log = [0]\<rparr>"
proof -
  have "\<exists>msg. json_loads garbled_world ''The answer is 42.'' = Inl msg"
    using garbled_world_loads by (rule exI)
  then have "\<exists>e. loop_body garbled_world ''alice@example.org'' ''elephant'' 0
        (initial_session ''Q1'') =
      Next ((initial_session ''Q1'')\<lparr>thinking_log := thinking_log (initial_session ''Q1'') @ [0],
        history := history (initial_session ''Q1'') @ [error_record e]\<rparr>)
    \<and> for_steps garbled_world ''alice@example.org'' ''elephant'' (0 # []) (initial_session ''Q1'') =
      for_steps garbled_world ''alice@example.org'' ''elephant'' []
        ((initial_session ''Q1'')\<lparr>thinking_log := thinking_log (initial_session ''Q1'') @ [0],
          history := history (initial_session ''Q1'') @ [error_record e]\<rparr>)"
    by (intro malformed_reply_is_soft_error [OF garbled_world_oracle] disjI1)
  then obtain e where "loop_body garbled_world ''alice@example.org'' ''elephant'' 0
        (initial_session ''Q1'') =
      Next ((initial_session ''Q1'')\<lparr>thinking_log := thinking_log (initial_session ''Q1'') @ [0],
        history := history (initial_session ''Q1'') @ [error_record e]\<rparr>)"
    by (elim exE conjE)
  then show ?thesis by (intro exI [of _ e]) (simp add: initial_session_def)
qed

text \<open>
  An object with neither \<open>tool\<close> nor \<open>args\<close> is not an action either, yet the step it
  leaves is an ordinary record with the tool name and the result empty, not an
  error-tagged entry: \<^verbatim>\<open>action.get('tool', '')\<close> and \<^verbatim>\<open>action.get('args', {})\<close>
  supply the defaults.
\<close>

theorem empty_object_reply_counterexample:
  "loop_body quiet_world ''alice@example.org'' ''elephant'' 0 (initial_session ''Q1'') =
     Next \<lparr>current_url = PStr ''Q1'',
           history = [[(''step'', PInt 0), (''tool'', PStr []), (''result'', PStr [])]],
           thinking_log = [0]\<rparr> \<and>
   oracle_text quiet_world 0 (PStr ''Q1'') [] = Inr ''{}'' \<and>
   json_loads quiet_world ''{}'' = Inr (PDict []) \<and>
   map_of (last (history (flow_session
     (loop_body quiet_world ''alice@example.org'' ''elephant'' 0 (initial_session ''Q1'')))))
     ''error'' = None"
  by code_simp


text \<open>An object without a \<open>tool\<close> is run as the tool \<open>''''\<close>: no branch, the empty result.\<close>

lemma missing_tool_is_noop:
  assumes "map_of kvs ''tool'' = None"
  shows "act w email secret step s (PDict kvs) = Inr ([], Observed [])"
  using assms
  by (simp add: act_def py_get_def py_upper_def upper_def and_then_def printing_def py_print_def
      dispatch_def)

section \<open>Tool names\<close>










section \<open>PYTHON after a soft error\<close>

lemma act_python_after_error:
  assumes "history s \<noteq> []" and "last (history s) = error_record e0"
    and "py_get action ''tool'' (PStr []) = Inr (PStr name)" and "upper w name = ''PYTHON''"
  shows "act w email secret step s action = Inl (Exception (quoted ''result''))"
proof -
  have pr: "py_print w (PStr name) = None"
    using assms(4) by (intro known_tool_prints) simp
  from assms(3) obtain args where args: "py_get action ''args'' (PDict []) = Inr args"
    by (cases action) (simp_all add: py_get_def)
  have "dispatch w email secret step s ''PYTHON'' args = Inl (Exception (quoted ''result''))"
    using assms(1,2) by (simp add: dispatch_def last_text_def error_record_def and_then_def)
  with act_printed [OF assms(3) pr args] assms(4) show ?thesis
    by (simp add: and_then_def)
qed

lemma upper_char_python_exec: "upper_char (w\<lparr>python_exec := ex\<rparr>) = upper_char w"
  by (rule ext) (simp add: upper_char_def Let_def cong: if_cong)

lemma upper_python_exec: "upper (w\<lparr>python_exec := ex\<rparr>) name = upper w name"
  by (simp add: upper_def upper_char_python_exec)

lemma think_python_exec:
  "think (w\<lparr>python_exec := ex\<rparr>) step s = think w step s"
  by (simp add: think_def)

text \<open>
  C10. When the history is not empty and its last entry is an error-tagged record, a
  PYTHON action raises the KeyError of \<^verbatim>\<open>history[-1]['result']\<close> before the snippet is
  run: whatever the interpreter \<open>ex\<close> would do with the snippet, the step only appends
  the error-tagged entry of the KeyError.
\<close>

theorem python_after_soft_error_skips_snippet:
  assumes "history s \<noteq> []" and "last (history s) = error_record e0"
    and "think w step s = Inr action"
    and "py_get action ''tool'' (PStr []) = Inr (PStr name)" and "upper w name = ''PYTHON''"
  shows "loop_body (w\<lparr>python_exec := ex\<rparr>) email secret step s =
      Next (s\<lparr>thinking_log := thinking_log s @ [step],
              history := history s @ [error_record (quoted ''result'')]\<rparr>)"
proof -
  have "upper (w\<lparr>python_exec := ex\<rparr>) name = ''PYTHON''"
    using assms(5) by (simp add: upper_python_exec)
  from act_python_after_error [OF assms(1,2,4) this]
  have "try_block (w\<lparr>python_exec := ex\<rparr>) email secret step s =
      Inl (Exception (quoted ''result''))"
    using assms(3) by (simp add: try_block_def think_python_exec and_then_def)
  then show ?thesis by (rule loop_body_Exception)
qed

lemma python_world_think:
  "think python_world step s =
     Inr (PDict [(''tool'', PStr ''python''), (''args'', PDict [(''code'', PStr ''print(6 * 7)'')])])"
  by (simp add: think_def python_world_def replying_world_def and_then_def demo_loads_def
      python_reply_def)

lemma upper_python: "upper t ''python'' = ''PYTHON''"
  by code_simp

theorem python_after_soft_error_skips_snippet_witness:
  "loop_body exiting_python_world ''alice@example.org'' ''elephant'' 1 failed_session =
   Next \<lparr>current_url = PStr ''Q1'',
         history = [error_record ''Expecting value: line 1 column 1 (char 0)'',
                    error_record (quoted ''result'')],
         thinking_log = [0, 1]\<rparr>"
  using python_after_soft_error_skips_snippet
    [where s = failed_session and ?e0.0 = "''Expecting value: line 1 column 1 (char 0)''"
       and w = python_world and step = 1 and name = "''python''"
       and ex = "\<lambda>step. exiting_exec" and email = "''alice@example.org''"
       and secret = "''elephant''",
     OF _ _ python_world_think _ upper_python]
  by (simp add: failed_session_def py_get_def exiting_python_world_def)

section \<open>The adapters' boundary\<close>

lemma except_Exception_returns:
  assumes "\<forall>e. r \<noteq> Inl (BaseException e)" and "\<forall>e. r \<noteq> Inl (StrRaises e)"
  shows "\<exists>v. except_Exception handler r = Inr v"
proof (cases r)
  case (Inl x)
  with assms show ?thesis by (cases x) (simp_all add: except_Exception_def)
next
  case (Inr v)
  then show ?thesis by (simp add: except_Exception_def)
qed

lemma read_pages_ordinary:
  assumes "\<forall>e. Inl (BaseException e) \<notin> set pages" and "\<forall>e. Inl (StrRaises e) \<notin> set pages"
  shows "read_pages pages acc \<noteq> Inl (BaseException b) \<and> read_pages pages acc \<noteq> Inl (StrRaises e')"
  using assms by (induction pages acc rule: read_pages.induct) auto

lemma execute_python_code_returns:
  assumes "\<forall>e. exec_code code text_input \<noteq> Inl (BaseException e)"
    and "\<forall>e. exec_code code text_input \<noteq> Inl (StrRaises e)"
  shows "\<exists>out. execute_python_code exec_code code text_input = Inr out"
  unfolding execute_python_code_def using assms by (rule except_Exception_returns)

lemma scrape_page_returns:
  assumes "\<forall>e. visit page_url \<noteq> Inl (BaseException e)"
    and "\<forall>e. visit page_url \<noteq> Inl (StrRaises e)"
  shows "\<exists>out. scrape_page visit page_url = Inr out"
  unfolding scrape_page_def
proof (rule except_Exception_returns)
  show "\<forall>e. (case visit page_url of Inl e \<Rightarrow> Inl e | Inr page_text \<Rightarrow> Inr (take 30000 page_text)) \<noteq>
      Inl (BaseException e)"
    using assms(1) by (cases "visit page_url") simp_all
  show "\<forall>e. (case visit page_url of Inl e \<Rightarrow> Inl e | Inr page_text \<Rightarrow> Inr (take 30000 page_text)) \<noteq>
      Inl (StrRaises e)"
    using assms(2) by (cases "visit page_url") simp_all
qed

lemma download_file_returns:
  assumes "\<forall>e. http_get file_url \<noteq> Inl (BaseException e)"
    and "\<forall>e. http_get file_url \<noteq> Inl (StrRaises e)"
    and "\<forall>n e. write_file n \<noteq> Some (BaseException e)"
    and "\<forall>n e. write_file n \<noteq> Some (StrRaises e)"
  shows "\<exists>out. download_file http_get write_file file_url filename = Inr out"
  unfolding download_file_def
proof (rule except_Exception_returns)
  let ?body = "case http_get file_url of
          Inl e \<Rightarrow> Inl e
        | Inr content_type \<Rightarrow>
            (case filename of
               PStr name \<Rightarrow>
                 (case write_file (infer_extension name content_type) of
                    Some e \<Rightarrow> Inl e
                  | None \<Rightarrow>
                      Inr (''Success. File saved to '' @ infer_extension name content_type))
             | _ \<Rightarrow> Inl (filename_type_error filename))"
  show "\<forall>e. ?body \<noteq> Inl (BaseException e)"
    using assms(1,3)
    by (auto simp: filename_type_error_def split: sum.split pyval.split option.split)
  show "\<forall>e. ?body \<noteq> Inl (StrRaises e)"
    using assms(2,4)
    by (auto simp: filename_type_error_def split: sum.split pyval.split option.split)
qed

lemma read_pdf_returns:
  assumes "\<forall>e. pdf_open pdf_name \<noteq> Inl (BaseException e)"
    and "\<forall>e. pdf_open pdf_name \<noteq> Inl (StrRaises e)"
    and "\<forall>pages e. pdf_open pdf_name = Inr pages \<longrightarrow> Inl (BaseException e) \<notin> set pages"
    and "\<forall>pages e. pdf_open pdf_name = Inr pages \<longrightarrow> Inl (StrRaises e) \<notin> set pages"
  shows "\<exists>out. read_pdf pdf_open pdf_name = Inr out"
proof (cases "pdf_open pdf_name")
  case (Inl x)
  with assms(1,2) show ?thesis
    by (cases x) (simp_all add: read_pdf_def except_Exception_def)
next
  case (Inr pages)
  with assms(3,4) have "\<forall>e. Inl (BaseException e) \<notin> set pages"
    and "\<forall>e. Inl (StrRaises e) \<notin> set pages"
    by simp_all
  then have ord: "\<And>b e'. read_pages pages [] \<noteq> Inl (BaseException b) \<and>
      read_pages pages [] \<noteq> Inl (StrRaises e')"
    by (rule read_pages_ordinary)
  show ?thesis
  proof (cases "read_pages pages []")
    case (Inl x)
    with ord Inr show ?thesis
      by (cases x) (auto simp: read_pdf_def except_Exception_def)
  next
    case inr: (Inr t)
    with Inr show ?thesis by (simp add: read_pdf_def except_Exception_def)
  qed
qed

lemma submit_quiz_returns_dict:
  assumes "py_print t submit_url = None"
    and "\<forall>e. http_post submit_url payload \<noteq> Inl (BaseException e)"
    and "\<forall>e. http_post submit_url payload \<noteq> Inl (StrRaises e)"
    and "\<forall>res v. http_post submit_url payload = Inr res \<and> json_body res = Inr v \<longrightarrow>
      (\<exists>kvs. v = PDict kvs)"
  shows "\<exists>kvs. submit_quiz t http_post submit_url payload = Inr (PDict kvs)"
proof (cases "http_post submit_url payload")
  case (Inl x)
  with assms(1,2,3) show ?thesis
    by (cases x) (simp_all add: submit_quiz_def except_Exception_def printing_def)
next
  case (Inr res)
  show ?thesis
  proof (cases "json_body res")
    case (Inl x)
    with Inr assms(1) show ?thesis
      by (simp add: submit_quiz_def except_Exception_def printing_def)
  next
    case inr: (Inr v)
    with Inr assms(4) obtain kvs where "v = PDict kvs" by blast
    with Inr inr assms(1) show ?thesis
      by (simp add: submit_quiz_def except_Exception_def printing_def)
  qed
qed

text \<open>
  C4, as the code has it. Each text-returning adapter returns a string whenever its
  operation returns or raises an \<open>Exception\<close> whose message can be formatted: the error
  description \<open>Error ...: <message>\<close> in the latter case. \<open>submit_quiz\<close> returns a dict
  when its progress line can print the URL and the POST raises such an \<open>Exception\<close>, the
  body is not JSON, or the body is a JSON object. An exception that
  \<^verbatim>\<open>except Exception\<close> does not catch passes the adapter's boundary.
\<close>

theorem adapters_return_unless_BaseException:
  "((\<forall>e. exec_code code text_input \<noteq> Inl (BaseException e)) \<and>
    (\<forall>e. exec_code code text_input \<noteq> Inl (StrRaises e)) \<longrightarrow>
      (\<exists>out. execute_python_code exec_code code text_input = Inr out)) \<and>
   (exec_code code text_input = Inl (Exception e1) \<longrightarrow>
      execute_python_code exec_code code text_input = Inr (''Error executing code: '' @ e1)) \<and>
   (exec_code code text_input = Inl (BaseException b1) \<longrightarrow>
      execute_python_code exec_code code text_input = Inl (BaseException b1)) \<and>
   ((\<forall>e. visit page_url \<noteq> Inl (BaseException e)) \<and>
    (\<forall>e. visit page_url \<noteq> Inl (StrRaises e)) \<longrightarrow>
      (\<exists>out. scrape_page visit page_url = Inr out)) \<and>
   (visit page_url = Inl (Exception e2) \<longrightarrow>
      scrape_page visit page_url = Inr (''Error scraping page: '' @ e2)) \<and>
   (visit page_url = Inl (BaseException b2) \<longrightarrow>
      scrape_page visit page_url = Inl (BaseException b2)) \<and>
   ((\<forall>e. http_get file_url \<noteq> Inl (BaseException e)) \<and>
    (\<forall>e. http_get file_url \<noteq> Inl (StrRaises e)) \<and>
    (\<forall>n e. write_file n \<noteq> Some (BaseException e)) \<and>
    (\<forall>n e. write_file n \<noteq> Some (StrRaises e)) \<longrightarrow>
      (\<exists>out. download_file http_get write_file file_url filename = Inr out)) \<and>
   (http_get file_url = Inl (Exception e3) \<longrightarrow>
      download_file http_get write_file file_url filename =
        Inr (''Error downloading: '' @ e3)) \<and>
   (http_get file_url = Inl (BaseException b3) \<longrightarrow>
      download_file http_get write_file file_url filename = Inl (BaseException b3)) \<and>
   ((\<forall>e. pdf_open pdf_name \<noteq> Inl (BaseException e)) \<and>
    (\<forall>e. pdf_open pdf_name \<noteq> Inl (StrRaises e)) \<and>
    (\<forall>pages e. pdf_open pdf_name = Inr pages \<longrightarrow> Inl (BaseException e) \<notin> set pages) \<and>
    (\<forall>pages e. pdf_open pdf_name = Inr pages \<longrightarrow> Inl (StrRaises e) \<notin> set pages) \<longrightarrow>
      (\<exists>out. read_pdf pdf_open pdf_name = Inr out)) \<and>
   (pdf_open pdf_name = Inl (Exception e4) \<longrightarrow>
      read_pdf pdf_open pdf_name = Inr (''Error reading PDF: '' @ e4)) \<and>
   (pdf_open pdf_name = Inl (BaseException b4) \<longrightarrow>
      read_pdf pdf_open pdf_name = Inl (BaseException b4)) \<and>
   (py_print t submit_url = None \<and>
    (\<forall>e. http_post submit_url payload \<noteq> Inl (BaseException e)) \<and>
    (\<forall>e. http_post submit_url payload \<noteq> Inl (StrRaises e)) \<and>
    (\<forall>res v. http_post submit_url payload = Inr res \<and> json_body res = Inr v \<longrightarrow>
       (\<exists>kvs. v = PDict kvs)) \<longrightarrow>
      (\<exists>kvs. submit_quiz t http_post submit_url payload = Inr (PDict kvs))) \<and>
   (py_print t submit_url = None \<and> http_post submit_url payload = Inl (Exception e5) \<longrightarrow>
      submit_quiz t http_post submit_url payload = Inr (PDict [(''error'', PStr e5)])) \<and>
   (py_print t submit_url = None \<and> http_post submit_url payload = Inl (BaseException b5) \<longrightarrow>
      submit_quiz t http_post submit_url payload = Inl (BaseException b5))"
proof (intro conjI impI)
  assume a: "(\<forall>e. exec_code code text_input \<noteq> Inl (BaseException e)) \<and>
    (\<forall>e. exec_code code text_input \<noteq> Inl (StrRaises e))"
  show "\<exists>out. execute_python_code exec_code code text_input = Inr out"
    using conjunct1 [OF a] conjunct2 [OF a] by (rule execute_python_code_returns)
next
  assume "exec_code code text_input = Inl (Exception e1)"
  then show "execute_python_code exec_code code text_input = Inr (''Error executing code: '' @ e1)"
    by (simp add: execute_python_code_def except_Exception_def)
next
  assume "exec_code code text_input = Inl (BaseException b1)"
  then show "execute_python_code exec_code code text_input = Inl (BaseException b1)"
    by (simp add: execute_python_code_def except_Exception_def)
next
  assume a: "(\<forall>e. visit page_url \<noteq> Inl (BaseException e)) \<and>
    (\<forall>e. visit page_url \<noteq> Inl (StrRaises e))"
  show "\<exists>out. scrape_page visit page_url = Inr out"
    using conjunct1 [OF a] conjunct2 [OF a] by (rule scrape_page_returns)
next
  assume "visit page_url = Inl (Exception e2)"
  then show "scrape_page visit page_url = Inr (''Error scraping page: '' @ e2)"
    by (simp add: scrape_page_def except_Exception_def)
next
  assume "visit page_url = Inl (BaseException b2)"
  then show "scrape_page visit page_url = Inl (BaseException b2)"
    by (simp add: scrape_page_def except_Exception_def)
next
  assume a: "(\<forall>e. http_get file_url \<noteq> Inl (BaseException e)) \<and>
    (\<forall>e. http_get file_url \<noteq> Inl (StrRaises e)) \<and>
    (\<forall>n e. write_file n \<noteq> Some (BaseException e)) \<and>
    (\<forall>n e. write_file n \<noteq> Some (StrRaises e))"
  show "\<exists>out. download_file http_get write_file file_url filename = Inr out"
    using conjunct1 [OF a] conjunct1 [OF conjunct2 [OF a]]
      conjunct1 [OF conjunct2 [OF conjunct2 [OF a]]]
      conjunct2 [OF conjunct2 [OF conjunct2 [OF a]]]
    by (rule download_file_returns)
next
  assume "http_get file_url = Inl (Exception e3)"
  then show "download_file http_get write_file file_url filename =
      Inr (''Error downloading: '' @ e3)"
    by (simp add: download_file_def except_Exception_def)
next
  assume "http_get file_url = Inl (BaseException b3)"
  then show "download_file http_get write_file file_url filename = Inl (BaseException b3)"
    by (simp add: download_file_def except_Exception_def)
next
  assume a: "(\<forall>e. pdf_open pdf_name \<noteq> Inl (BaseException e)) \<and>
    (\<forall>e. pdf_open pdf_name \<noteq> Inl (StrRaises e)) \<and>
    (\<forall>pages e. pdf_open pdf_name = Inr pages \<longrightarrow> Inl (BaseException e) \<notin> set pages) \<and>
    (\<forall>pages e. pdf_open pdf_name = Inr pages \<longrightarrow> Inl (StrRaises e) \<notin> set pages)"
  show "\<exists>out. read_pdf pdf_open pdf_name = Inr out"
    using conjunct1 [OF a] conjunct1 [OF conjunct2 [OF a]]
      conjunct1 [OF conjunct2 [OF conjunct2 [OF a]]]
      conjunct2 [OF conjunct2 [OF conjunct2 [OF a]]]
    by (rule read_pdf_returns)
next
  assume "pdf_open pdf_name = Inl (Exception e4)"
  then show "read_pdf pdf_open pdf_name = Inr (''Error reading PDF: '' @ e4)"
    by (simp add: read_pdf_def except_Exception_def)
next
  assume "pdf_open pdf_name = Inl (BaseException b4)"
  then show "read_pdf pdf_open pdf_name = Inl (BaseException b4)"
    by (simp add: read_pdf_def except_Exception_def)
next
  assume a: "py_print t submit_url = None \<and>
    (\<forall>e. http_post submit_url payload \<noteq> Inl (BaseException e)) \<and>
    (\<forall>e. http_post submit_url payload \<noteq> Inl (StrRaises e)) \<and>
    (\<forall>res v. http_post submit_url payload = Inr res \<and> json_body res = Inr v \<longrightarrow>
       (\<exists>kvs. v = PDict kvs))"
  show "\<exists>kvs. submit_quiz t http_post submit_url payload = Inr (PDict kvs)"
    using conjunct1 [OF a] conjunct1 [OF conjunct2 [OF a]]
      conjunct1 [OF conjunct2 [OF conjunct2 [OF a]]]
      conjunct2 [OF conjunct2 [OF conjunct2 [OF a]]]
    by (rule submit_quiz_returns_dict)
next
  assume "py_print t submit_url = None \<and> http_post submit_url payload = Inl (Exception e5)"
  then show "submit_quiz t http_post submit_url payload = Inr (PDict [(''error'', PStr e5)])"
    by (simp add: submit_quiz_def except_Exception_def printing_def)
next
  assume "py_print t submit_url = None \<and> http_post submit_url payload = Inl (BaseException b5)"
  then show "submit_quiz t http_post submit_url payload = Inl (BaseException b5)"
    by (simp add: submit_quiz_def except_Exception_def printing_def)
qed

lemma quiet_world_prints_E: "py_print quiet_world (PStr ''E'') = None"
  by (simp add: py_print_def encodable_def)

theorem adapters_return_unless_BaseException_witness:
  "execute_python_code failing_exec (PStr ''print(1 / 0)'') (PStr []) =
     Inr ''Error executing code: division by zero'' \<and>
   scrape_page unreachable_visit (PStr ''http://nowhere.invalid'') =
     Inr ''Error scraping page: net::ERR_NAME_NOT_RESOLVED'' \<and>
   download_file refused_get (file_write quiet_world 0) (PStr ''http://nowhere.invalid'')
       (PStr ''data_file'') =
     Inr ''Error downloading: Connection refused'' \<and>
   read_pdf missing_pdf_open (PStr ''data_file.pdf'') =
     Inr ''Error reading PDF: No such file or directory'' \<and>
   (\<exists>kvs. submit_quiz quiet_world plain_text_post (PStr ''E'') (PDict []) = Inr (PDict kvs)) \<and>
   execute_python_code exiting_exec (PStr ''raise SystemExit'') (PStr []) =
     Inl (BaseException [])"
  using adapters_return_unless_BaseException
    [where exec_code = failing_exec and code = "PStr ''print(1 / 0)''" and text_input = "PStr []"
       and ?e1.0 = "''division by zero''"
       and visit = unreachable_visit and page_url = "PStr ''http://nowhere.invalid''"
       and ?e2.0 = "''net::ERR_NAME_NOT_RESOLVED''"
       and http_get = refused_get and write_file = "file_write quiet_world 0"
       and file_url = "PStr ''http://nowhere.invalid''" and filename = "PStr ''data_file''"
       and ?e3.0 = "''Connection refused''"
       and pdf_open = missing_pdf_open and pdf_name = "PStr ''data_file.pdf''"
       and ?e4.0 = "''No such file or directory''"
       and t = quiet_world
       and http_post = plain_text_post and submit_url = "PStr ''E''" and payload = "PDict []"]
    adapters_return_unless_BaseException
    [where exec_code = exiting_exec and code = "PStr ''raise SystemExit''"
       and text_input = "PStr []" and ?b1.0 = "[]",
     THEN conjunct2, THEN conjunct2, THEN conjunct1]
  by (simp add: failing_exec_def unreachable_visit_def refused_get_def missing_pdf_open_def
      plain_text_post_def quiet_world_prints_E exiting_exec_def)

text \<open>
  The adapters are not total on every input: a snippet that raises SystemExit leaves
  \<open>execute_python_code\<close> with the exception, as does one that raises an exception whose
  \<^verbatim>\<open>__str__\<close> raises; a submit URL that cannot be printed makes \<open>submit_quiz\<close>
  raise before its \<^verbatim>\<open>try\<close>, and an endpoint that answers with a JSON array makes it
  return a list.
\<close>

theorem adapters_total_counterexample:
  "execute_python_code exiting_exec (PStr ''raise SystemExit'') (PStr []) =
     Inl (BaseException []) \<and>
   execute_python_code broken_str_exec (PStr ''raise Broken()'') (PStr []) =
     Inl (Exception ''no message'') \<and>
   submit_quiz quiet_world (requests_post quiet_world 0) (PStr [CHR 0x80]) (PDict []) =
     Inl (Exception ''surrogates not allowed'') \<and>
   submit_quiz quiet_world array_post (PStr ''E'') (PDict []) = Inr (PList [])"
  by (simp add: execute_python_code_def submit_quiz_def except_Exception_def exiting_exec_def
      broken_str_exec_def array_post_def printing_def py_print_def encodable_def quiet_world_def
      replying_world_def)

section \<open>The caps on returned text\<close>

lemma scrape_page_text:
  assumes "visit page_url = Inr page_text"
  shows "scrape_page visit page_url = Inr (take 30000 page_text)"
  using assms by (simp add: scrape_page_def except_Exception_def)

lemma read_pdf_text:
  assumes "pdf_open pdf_name = Inr pages" and "read_pages pages [] = Inr extracted"
  shows "read_pdf pdf_open pdf_name = Inr (take 10000 extracted)"
  using assms by (simp add: read_pdf_def except_Exception_def)

lemma scrape_page_cases:
  assumes "scrape_page visit page_url = Inr out"
  shows "length out \<le> 30000 \<or> (\<exists>e. visit page_url = Inl (Exception e) \<and>
    out = ''Error scraping page: '' @ e)"
proof (cases "visit page_url")
  case (Inl x)
  with assms show ?thesis
    by (cases x) (simp_all add: scrape_page_def except_Exception_def)
next
  case (Inr page_text)
  with assms have "out = take 30000 page_text"
    by (simp add: scrape_page_def except_Exception_def)
  then show ?thesis by simp
qed

lemma read_pdf_cases:
  assumes "read_pdf pdf_open pdf_name = Inr out"
  shows "length out \<le> 10000 \<or> (\<exists>e. out = ''Error reading PDF: '' @ e)"
proof (cases "case pdf_open pdf_name of
          Inl e \<Rightarrow> Inl e
        | Inr pages \<Rightarrow>
            (case read_pages pages [] of Inl e \<Rightarrow> Inl e | Inr t \<Rightarrow> Inr (take 10000 t))")
  case (Inl x)
  with assms have "\<exists>e. out = ''Error reading PDF: '' @ e"
    by (cases x) (auto simp: read_pdf_def except_Exception_def)
  then show ?thesis by (rule disjI2)
next
  case (Inr t)
  then have "length t \<le> 10000"
    by (auto split: sum.splits)
  moreover from Inr assms have "out = t"
    by (simp add: read_pdf_def except_Exception_def)
  ultimately show ?thesis by simp
qed

text \<open>
  C8. The page text \<open>scrape_page\<close> returns is the first 30000 characters of the page's
  text, and the extracted text \<open>read_pdf\<close> returns is the first 10000 characters of the
  pages' text: neither is longer than its cap. On every input, what these adapters
  return is such a text or an error description.
\<close>

theorem scrape_and_pdf_text_capped:
  "(visit page_url = Inr page_text \<longrightarrow>
      scrape_page visit page_url = Inr (take 30000 page_text) \<and>
      length (take 30000 page_text) \<le> 30000) \<and>
   (pdf_open pdf_name = Inr pages \<and> read_pages pages [] = Inr extracted \<longrightarrow>
      read_pdf pdf_open pdf_name = Inr (take 10000 extracted) \<and>
      length (take 10000 extracted) \<le> 10000) \<and>
   (scrape_page visit page_url = Inr out \<longrightarrow>
      length out \<le> 30000 \<or>
      (\<exists>e. visit page_url = Inl (Exception e) \<and> out = ''Error scraping page: '' @ e)) \<and>
   (read_pdf pdf_open pdf_name = Inr out' \<longrightarrow>
      length out' \<le> 10000 \<or> (\<exists>e. out' = ''Error reading PDF: '' @ e))"
proof (intro conjI impI)
  assume "visit page_url = Inr page_text"
  then show "scrape_page visit page_url = Inr (take 30000 page_text)"
    by (rule scrape_page_text)
next
  show "length (take 30000 page_text) \<le> 30000" by simp
next
  assume a: "pdf_open pdf_name = Inr pages \<and> read_pages pages [] = Inr extracted"
  show "read_pdf pdf_open pdf_name = Inr (take 10000 extracted)"
    using conjunct1 [OF a] conjunct2 [OF a] by (rule read_pdf_text)
next
  show "length (take 10000 extracted) \<le> 10000" by simp
next
  assume "scrape_page visit page_url = Inr out"
  then show "length out \<le> 30000 \<or>
      (\<exists>e. visit page_url = Inl (Exception e) \<and> out = ''Error scraping page: '' @ e)"
    by (rule scrape_page_cases)
next
  assume "read_pdf pdf_open pdf_name = Inr out'"
  then show "length out' \<le> 10000 \<or> (\<exists>e. out' = ''Error reading PDF: '' @ e)"
    by (rule read_pdf_cases)
qed

theorem scrape_and_pdf_text_capped_witness:
  "scrape_page long_page_visit (PStr ''Q1'') = Inr (replicate 30000 (CHR ''a'')) \<and>
   read_pdf long_pdf_open (PStr ''data_file.pdf'') =
     Inr (replicate 9000 (CHR ''a'') @ [CHR 0x0A] @ replicate 999 (CHR ''b''))"
  using scrape_and_pdf_text_capped
    [where visit = long_page_visit and page_url = "PStr ''Q1''"
       and page_text = "replicate 40000 (CHR ''a'')"
       and pdf_open = long_pdf_open and pdf_name = "PStr ''data_file.pdf''"
       and pages = "[Inr (Some (replicate 9000 (CHR ''a''))), Inr None,
               Inr (Some (replicate 9000 (CHR ''b'')))]"
       and extracted = "replicate 9000 (CHR ''a'') @ [CHR 0x0A] @ replicate 9000 (CHR ''b'') @
          [CHR 0x0A]"]
  by (simp add: long_page_visit_def long_pdf_open_def)


end
